theory Spec2Isabelle
  imports Main "HOL-Library.AList" "HOL-Library.Multiset"
begin

section \<open>Python string primitives used by parse-ns.py\<close>

text \<open>
  The script is Python 2.7: a line is a byte string, modelled as \<^typ>\<open>string\<close>
  (a list of 8-bit characters). Only the string methods the script calls are modelled:
  \<open>lower\<close>, \<open>startswith\<close>, \<open>in\<close> (substring test), \<open>split()\<close>,
  \<open>partition(sep)\<close> and \<open>strip(chars)\<close>.
\<close>

definition newline :: char where
  "newline = CHR 0x0A"

definition dquote :: char where
  "dquote = CHR 0x22"

text \<open>\<open>str.isspace\<close> on one byte in the C locale: space, tab, LF, VT, FF, CR.\<close>

definition isspace :: "char \<Rightarrow> bool" where
  "isspace c = (c \<in> set [CHR 0x20, CHR 0x09, CHR 0x0A, CHR 0x0B, CHR 0x0C, CHR 0x0D])"

text \<open>\<open>str.lower()\<close>: the bytes \<open>A\<close>..\<open>Z\<close> move down by 32, every other byte stays.\<close>

definition lower_char :: "char \<Rightarrow> char" where
  "lower_char c =
     (if (65::nat) \<le> of_char c \<and> of_char c \<le> (90::nat)
      then char_of (of_char c + (32::nat)) else c)"

definition lower :: "string \<Rightarrow> string" where
  "lower s = map lower_char s"

definition startswith :: "string \<Rightarrow> string \<Rightarrow> bool" where
  "startswith s p = (take (length p) s = p)"

text \<open>\<open>sub in s\<close>: \<open>sub\<close> occurs in \<open>s\<close> as a contiguous substring.\<close>

fun contains :: "string \<Rightarrow> string \<Rightarrow> bool" where
  "contains sub [] = (sub = [])"
| "contains sub (c # cs) = (startswith (c # cs) sub \<or> contains sub cs)"

text \<open>
  \<open>s.split()\<close> with no argument: the maximal runs of non-whitespace bytes, in order;
  no empty token is ever produced. The first argument is the token being read,
  reversed.
\<close>

fun split_acc :: "string \<Rightarrow> string \<Rightarrow> string list" where
  "split_acc tok [] = (if tok = [] then [] else [rev tok])"
| "split_acc tok (c # cs) =
     (if isspace c
      then (if tok = [] then split_acc [] cs else rev tok # split_acc [] cs)
      else split_acc (c # tok) cs)"

definition split_ws :: "string \<Rightarrow> string list" where
  "split_ws s = split_acc [] s"

text \<open>
  \<open>s.partition(sep)\<close> for a non-empty \<open>sep\<close>: the text before the first occurrence
  of \<open>sep\<close>, \<open>sep\<close> itself, and the text after it; \<open>(s, '', '')\<close> when \<open>sep\<close>
  does not occur. (Python raises ValueError on an empty separator; the script only
  passes the constants \<open>'-comment '\<close> and \<open>'-CustomServerID '\<close>.)
\<close>

fun partition_str :: "string \<Rightarrow> string \<Rightarrow> string \<times> string \<times> string" where
  "partition_str [] sep = ([], [], [])"
| "partition_str (c # cs) sep =
     (if startswith (c # cs) sep then ([], sep, drop (length sep) (c # cs))
      else (case partition_str cs sep of
              (h, m, t) \<Rightarrow> if m = [] then (c # cs, [], []) else (c # h, m, t)))"

text \<open>\<open>s.partition(sep)[2]\<close>.\<close>

definition partition_tail :: "string \<Rightarrow> string \<Rightarrow> string" where
  "partition_tail s sep = snd (snd (partition_str s sep))"

text \<open>\<open>s.strip(chars)\<close>: drop leading and trailing bytes that occur in \<open>chars\<close>.\<close>

definition strip :: "string \<Rightarrow> string \<Rightarrow> string" where
  "strip s chars =
     rev (dropWhile (\<lambda>c. c \<in> set chars) (rev (dropWhile (\<lambda>c. c \<in> set chars) s)))"

text \<open>The argument \<open>'"\n'\<close> of every \<open>strip\<close> call in the script.\<close>

definition quote_nl :: string where
  "quote_nl = [dquote, newline]"

section \<open>Errors and list indexing\<close>

text \<open>
  \<open>IndexError\<close> is what \<open>l.split()[i]\<close> raises when the line has at most \<open>i\<close>
  tokens; \<open>UsageError\<close> stands for the \<open>exit(1)\<close> taken when no file is given.
\<close>

datatype error = IndexError | UsageError

definition item :: "'a list \<Rightarrow> nat \<Rightarrow> error + 'a" where
  "item xs i = (if i < length xs then Inr (xs ! i) else Inl IndexError)"

section \<open>The five dictionaries\<close>

text \<open>
  The module-level dictionaries \<open>servers\<close>, \<open>srvs\<close>, \<open>vServers\<close>, \<open>VIPs\<close> and
  \<open>domains\<close> are one record of association lists. \<open>d[k] = v\<close> is
  \<^const>\<open>AList.update\<close> (an existing key keeps its place and gets the new value, a new
  key is appended), \<open>d[k]\<close> is \<^const>\<open>map_of\<close> with \<open>None\<close> for KeyError, and
  \<open>d.keys()\<close> is the list of first components. The two- and four-element Python
  lists stored as values are tuples.
\<close>

record store =
  servers :: "(string \<times> (string \<times> string)) list"
  srvs :: "(string \<times> (string \<times> string \<times> string \<times> string)) list"
  vServers :: "(string \<times> string) list"
  VIPs :: "(string \<times> (string \<times> string \<times> string \<times> string)) list"
  domains :: "(string \<times> string) list"

definition empty_store :: store where
  "empty_store = \<lparr>servers = [], srvs = [], vServers = [], VIPs = [], domains = []\<rparr>"

definition keys :: "('k \<times> 'v) list \<Rightarrow> 'k list" where
  "keys d = map fst d"

section \<open>Parsing functions\<close>

text \<open>
  A parser mutates the global dictionaries and may raise. It is modelled as a function
  from the store to an outcome (\<open>Inr ()\<close> for a normal return, \<open>Inl e\<close> for the
  exception) paired with the store as it is when the parser is left.
\<close>

type_synonym outcome = "(error + unit) \<times> store"

text \<open>
  \<open>server_parse\<close> reads the comment from the global \<open>line\<close>, which is the loop
  variable that \<open>readline\<close> was called with, so it is the same string as \<open>l\<close>.
\<close>

definition server_parse :: "string \<Rightarrow> store \<Rightarrow> outcome" where
  "server_parse l st =
     (case item (split_ws l) 2 of Inl e \<Rightarrow> (Inl e, st) | Inr srvName \<Rightarrow>
     (case item (split_ws l) 3 of Inl e \<Rightarrow> (Inl e, st) | Inr IP \<Rightarrow>
        let srvComment = strip (partition_tail l ''-comment '') quote_nl
        in (Inr (), st\<lparr>servers := AList.update IP (srvName, srvComment) (servers st)\<rparr>)))"

definition bind_servicegroup_parse :: "string \<Rightarrow> store \<Rightarrow> outcome" where
  "bind_servicegroup_parse l st =
     (if contains ''-monitorName'' l then (Inr (), st)
      else
       (case item (split_ws l) 2 of Inl e \<Rightarrow> (Inl e, st) | Inr serviceGroup \<Rightarrow>
       (case item (split_ws l) 3 of Inl e \<Rightarrow> (Inl e, st) | Inr srvName \<Rightarrow>
       (case item (split_ws l) 4 of Inl e \<Rightarrow> (Inl e, st) | Inr port \<Rightarrow>
          let srvComment = strip (partition_tail l ''-CustomServerID '') quote_nl
          in (Inr (), st\<lparr>srvs :=
                AList.update srvName (serviceGroup, ''LB'', port, srvComment) (srvs st)\<rparr>)))))"

definition bind_lb_parse :: "string \<Rightarrow> store \<Rightarrow> outcome" where
  "bind_lb_parse l st =
     (case item (split_ws l) 3 of Inl e \<Rightarrow> (Inl e, st) | Inr vServer \<Rightarrow>
     (case item (split_ws l) 4 of Inl e \<Rightarrow> (Inl e, st) | Inr serviceGroup \<Rightarrow>
        (Inr (), st\<lparr>vServers := AList.update serviceGroup vServer (vServers st)\<rparr>)))"

definition lb_vserver_parse :: "string \<Rightarrow> store \<Rightarrow> outcome" where
  "lb_vserver_parse l st =
     (case item (split_ws l) 3 of Inl e \<Rightarrow> (Inl e, st) | Inr vServer \<Rightarrow>
     (case item (split_ws l) 4 of Inl e \<Rightarrow> (Inl e, st) | Inr serviceType \<Rightarrow>
     (case item (split_ws l) 5 of Inl e \<Rightarrow> (Inl e, st) | Inr VIP \<Rightarrow>
     (case item (split_ws l) 6 of Inl e \<Rightarrow> (Inl e, st) | Inr port \<Rightarrow>
        let VIPcomment = strip (partition_tail l ''-comment '') quote_nl
        in (Inr (), st\<lparr>VIPs :=
              AList.update vServer (VIP, serviceType, port, VIPcomment) (VIPs st)\<rparr>)))))"

definition gslb_parse :: "string \<Rightarrow> store \<Rightarrow> outcome" where
  "gslb_parse l st =
     (case item (split_ws l) 3 of Inl e \<Rightarrow> (Inl e, st) | Inr gslbService \<Rightarrow>
     (case item (split_ws l) 4 of Inl e \<Rightarrow> (Inl e, st) | Inr srvName \<Rightarrow>
     (case item (split_ws l) 5 of Inl e \<Rightarrow> (Inl e, st) | Inr serviceType \<Rightarrow>
     (case item (split_ws l) 6 of Inl e \<Rightarrow> (Inl e, st) | Inr port \<Rightarrow>
        let srvComment = strip (partition_tail l ''-comment '') quote_nl
        in (Inr (), st\<lparr>srvs :=
              AList.update srvName (gslbService, serviceType, port, srvComment) (srvs st)\<rparr>)))))"

text \<open>
  The \<open>try\<close>/\<open>except KeyError\<close> of the domain form is the case distinction on the
  lookup of \<open>domains[vserver]\<close>.
\<close>

definition gslb_vserver_parse :: "string \<Rightarrow> store \<Rightarrow> outcome" where
  "gslb_vserver_parse l st =
     (if contains ''-serviceName'' l then
        (case item (split_ws l) 3 of Inl e \<Rightarrow> (Inl e, st) | Inr vServer \<Rightarrow>
        (case item (split_ws l) 5 of Inl e \<Rightarrow> (Inl e, st) | Inr gslbService \<Rightarrow>
           (Inr (), st\<lparr>vServers := AList.update gslbService vServer (vServers st)\<rparr>)))
      else if contains ''-domainName'' l then
        (case item (split_ws l) 3 of Inl e \<Rightarrow> (Inl e, st) | Inr vserver \<Rightarrow>
        (case item (split_ws l) 5 of Inl e \<Rightarrow> (Inl e, st) | Inr domain \<Rightarrow>
           (case map_of (domains st) vserver of
              Some old \<Rightarrow>
                (Inr (), st\<lparr>domains :=
                   AList.update vserver (old @ [newline] @ domain) (domains st)\<rparr>)
            | None \<Rightarrow>
                (Inr (), st\<lparr>domains := AList.update vserver domain (domains st)\<rparr>))))
      else (Inr (), st))"

definition readline :: "string \<Rightarrow> store \<Rightarrow> outcome" where
  "readline line st =
     (if startswith (lower line) ''add server'' then server_parse line st
      else if startswith (lower line) ''bind servicegroup'' then bind_servicegroup_parse line st
      else if startswith (lower line) ''bind lb vserver'' then bind_lb_parse line st
      else if startswith (lower line) ''add lb vserver'' then lb_vserver_parse line st
      else if startswith (lower line) ''add gslb service'' then gslb_parse line st
      else if startswith (lower line) ''bind gslb vserver'' then gslb_vserver_parse line st
      else (Inr (), st))"

section \<open>Information input\<close>

text \<open>
  The loop \<open>for line in f: readline(line)\<close>: an exception leaves the loop with the
  store as the failing call left it.
\<close>

fun readlines :: "string list \<Rightarrow> store \<Rightarrow> outcome" where
  "readlines [] st = (Inr (), st)"
| "readlines (line # rest) st =
     (case readline line st of
        (Inl e, st') \<Rightarrow> (Inl e, st')
      | (Inr u, st') \<Rightarrow> readlines rest st')"

section \<open>Information output\<close>

type_synonym row = "string list"

definition lb_header :: row where
  "lb_header = [''VIP'', ''serviceType'', ''port'', ''VIPcomment'', ''vServer'',
                ''serviceGroup'', ''port'', ''CustomServerID'', ''srvName'', ''srvComment'',
                ''IP'']"

definition gslb_header :: row where
  "gslb_header = [''domain'', ''vServer'', ''gslbService'', ''serviceType'', ''port'',
                  ''srvcComment'', ''srvComment'', ''srvName'', ''IP'']"

text \<open>
  One pass of the LB loop body for the key \<open>IP\<close>: the rows it writes, none when a
  lookup raises KeyError and the loop continues. \<open>IP\<close> ranges over
  \<open>servers.keys()\<close>, so \<open>servers[IP]\<close> itself cannot fail in the script; the model
  writes no row there.
\<close>

definition lb_row :: "store \<Rightarrow> string \<Rightarrow> row list" where
  "lb_row st IP =
     (case map_of (servers st) IP of None \<Rightarrow> [] | Some (srvName, srvComment) \<Rightarrow>
     (case map_of (srvs st) srvName of None \<Rightarrow> []
      | Some (serviceGroup, notUsed, port, CustomServerID) \<Rightarrow>
     (case map_of (vServers st) serviceGroup of None \<Rightarrow> [] | Some vServer \<Rightarrow>
     (case map_of (VIPs st) vServer of None \<Rightarrow> []
      | Some (VIP, serviceType, VIPport, VIPcomment) \<Rightarrow>
          [[VIP, serviceType, VIPport, VIPcomment, vServer, serviceGroup, port,
            CustomServerID, srvName, srvComment, IP]]))))"

definition gslb_row :: "store \<Rightarrow> string \<Rightarrow> row list" where
  "gslb_row st IP =
     (case map_of (servers st) IP of None \<Rightarrow> [] | Some (srvName, srvComment) \<Rightarrow>
     (case map_of (srvs st) srvName of None \<Rightarrow> []
      | Some (gslbService, serviceType, port, srvcComment) \<Rightarrow>
     (case map_of (vServers st) gslbService of None \<Rightarrow> [] | Some vServer \<Rightarrow>
     (case map_of (domains st) vServer of None \<Rightarrow> []
      | Some domain \<Rightarrow>
          [[domain, vServer, gslbService, serviceType, port, srvcComment, srvComment,
            srvName, IP]]))))"

text \<open>
  The data rows of a report for a given traversal order of the server keys, and for
  the order of the model's dictionary. CPython 2 enumerates \<open>servers.keys()\<close> in hash
  order; whatever the order, it lists every key once.
\<close>

definition lb_rows_over :: "store \<Rightarrow> string list \<Rightarrow> row list" where
  "lb_rows_over st ks = concat (map (lb_row st) ks)"

definition gslb_rows_over :: "store \<Rightarrow> string list \<Rightarrow> row list" where
  "gslb_rows_over st ks = concat (map (gslb_row st) ks)"

definition lb_rows :: "store \<Rightarrow> row list" where
  "lb_rows st = lb_rows_over st (keys (servers st))"

definition gslb_rows :: "store \<Rightarrow> row list" where
  "gslb_rows st = gslb_rows_over st (keys (servers st))"

definition lb_report :: "store \<Rightarrow> row list" where
  "lb_report st = lb_header # lb_rows st"

definition gslb_report :: "store \<Rightarrow> row list" where
  "gslb_report st = gslb_header # gslb_rows st"

text \<open>
  The whole run on the files named on the command line, each given as the list of its
  lines: the usage error when there is none, the exception of the first failing line
  (no report is written then), or the two reports. A report is the list of tuples
  handed to \<open>writerow\<close>, header first; the CSV quoting, the file names and the
  progress messages are left out.
\<close>

definition main :: "string list list \<Rightarrow> error + (row list \<times> row list)" where
  "main confFiles =
     (if confFiles = [] then Inl UsageError
      else (case readlines (concat confFiles) empty_store of
              (Inl e, st) \<Rightarrow> Inl e
            | (Inr u, st) \<Rightarrow> Inr (lb_report st, gslb_report st)))"

section \<open>Example inputs\<close>

text \<open>Concrete lines and stores on which the theorems below are exercised.\<close>

definition monitor_line :: string where
  "monitor_line = ''bind serviceGroup SG1 -monitorName ping'' @ [newline]"

definition lb_bound_store :: store where
  "lb_bound_store =
     empty_store\<lparr>srvs := [(''-monitorName'', (''SG1'', ''LB'', ''80'', ''c1''))]\<rparr>"

definition rebind_first :: string where
  "rebind_first = ''bind lb vserver VS1 SG1'' @ [newline]"

definition rebind_second :: string where
  "rebind_second = ''bind lb vserver VS2 SG1'' @ [newline]"

definition both_flags_line :: string where
  "both_flags_line = ''bind gslb vserver VS2 -serviceName GS1 -domainName example.com'' @ [newline]"
definition both_flags_short_line :: string where
  "both_flags_short_line = ''bind gslb vserver -serviceName-domainName'' @ [newline]"
definition lowercase_flag_line :: string where
  "lowercase_flag_line = ''bind gslb vserver VS2 -servicename GS1 -DOMAINNAME example.com'' @ [newline]"

definition domain_line_a :: string where
  "domain_line_a = ''bind gslb vserver VS2 -domainName example.com -TTL 5'' @ [newline]"

definition domain_line_b :: string where
  "domain_line_b = ''bind gslb vserver VS2 -domainName example.org'' @ [newline]"

definition good_server_line :: string where
  "good_server_line = ''add server S1 10.0.0.1'' @ [newline]"

definition short_server_line :: string where
  "short_server_line = ''add server S1'' @ [newline]"

definition short_servicegroup_line :: string where
  "short_servicegroup_line = ''bind serviceGroup SG1 S1'' @ [newline]"

definition short_bind_lb_line :: string where
  "short_bind_lb_line = ''bind lb vserver VS1'' @ [newline]"

definition short_lb_vserver_line :: string where
  "short_lb_vserver_line = ''add lb vserver VS1 HTTP 192.0.2.10'' @ [newline]"

definition short_gslb_line :: string where
  "short_gslb_line = ''add gslb service GS1 S2 HTTP'' @ [newline]"

definition short_gslb_vserver_line :: string where
  "short_gslb_vserver_line = ''bind gslb vserver VS2 -domainName'' @ [newline]"

definition short_monitor_line :: string where
  "short_monitor_line = ''bind serviceGroup SG1 -monitorName'' @ [newline]"

definition flagless_gslb_vserver_line :: string where
  "flagless_gslb_vserver_line = ''bind gslb vserver VS2'' @ [newline]"

definition chain_lines :: "string list" where
  "chain_lines =
     [''add server S1 10.0.0.1'' @ [newline],
      ''bind serviceGroup SG1 S1 80 -CustomServerID '' @ [dquote] @ ''c1'' @ [dquote, newline],
      ''bind lb vserver VS1 SG1'' @ [newline],
      ''add lb vserver VS1 HTTP 192.0.2.10 80 -comment '' @ [dquote] @ ''v1'' @ [dquote, newline],
      ''add server S2 10.0.0.2'' @ [newline],
      ''add server S3 10.0.0.3'' @ [newline],
      ''bind serviceGroup SG3 S3 8080'' @ [newline],
      ''add server S4 10.0.0.4'' @ [newline],
      ''bind serviceGroup SG4 S4 443'' @ [newline],
      ''bind lb vserver VS4 SG4'' @ [newline]]"

definition chain_store :: store where
  "chain_store =
     \<lparr>servers = [(''10.0.0.1'', (''S1'', [])), (''10.0.0.2'', (''S2'', [])),
                 (''10.0.0.3'', (''S3'', [])), (''10.0.0.4'', (''S4'', []))],
      srvs = [(''S1'', (''SG1'', ''LB'', ''80'', ''c1'')), (''S3'', (''SG3'', ''LB'', ''8080'', [])),
              (''S4'', (''SG4'', ''LB'', ''443'', []))],
      vServers = [(''SG1'', ''VS1''), (''SG4'', ''VS4'')],
      VIPs = [(''VS1'', (''192.0.2.10'', ''HTTP'', ''80'', ''v1''))],
      domains = []\<rparr>"

definition cross_lines :: "string list" where
  "cross_lines =
     [''add server S1 10.0.0.1'' @ [newline],
      ''add gslb service GS1 S1 HTTP 80 -comment '' @ [dquote] @ ''g1'' @ [dquote, newline],
      ''bind gslb vserver VS1 -serviceName GS1'' @ [newline],
      ''add lb vserver VS1 HTTP 192.0.2.10 80 -comment '' @ [dquote] @ ''v1'' @ [dquote, newline],
      ''add server S2 10.0.0.2'' @ [newline],
      ''bind serviceGroup SG2 S2 80 -CustomServerID '' @ [dquote] @ ''c2'' @ [dquote, newline],
      ''bind lb vserver VS2 SG2'' @ [newline],
      ''bind gslb vserver VS2 -domainName example.com'' @ [newline]]"

definition cross_store :: store where
  "cross_store =
     \<lparr>servers = [(''10.0.0.1'', (''S1'', [])), (''10.0.0.2'', (''S2'', []))],
      srvs = [(''S1'', (''GS1'', ''HTTP'', ''80'', ''g1'')), (''S2'', (''SG2'', ''LB'', ''80'', ''c2''))],
      vServers = [(''GS1'', ''VS1''), (''SG2'', ''VS2'')],
      VIPs = [(''VS1'', (''192.0.2.10'', ''HTTP'', ''80'', ''v1''))],
      domains = [(''VS2'', ''example.com'')]\<rparr>"

definition commented_gslb_lines :: "string list" where
  "commented_gslb_lines =
     [''add server S2 10.0.0.2 -comment '' @ [dquote] @ ''srv'' @ [dquote, newline],
      ''add gslb service GS1 S2 HTTP 80 -comment '' @ [dquote] @ ''g1'' @ [dquote, newline],
      ''bind gslb vserver VS2 -serviceName GS1'' @ [newline],
      ''bind gslb vserver VS2 -domainName example.com'' @ [newline]]"

definition commented_gslb_store :: store where
  "commented_gslb_store =
     \<lparr>servers = [(''10.0.0.2'', (''S2'', ''srv''))],
      srvs = [(''S2'', (''GS1'', ''HTTP'', ''80'', ''g1''))],
      vServers = [(''GS1'', ''VS2'')],
      VIPs = [],
      domains = [(''VS2'', ''example.com'')]\<rparr>"

definition gslb_example :: "string list" where
  "gslb_example =
     [''add server S2 10.0.0.2'',
      ''add gslb service GS1 S2 HTTP 80 -comment '' @ [dquote] @ ''g1'' @ [dquote],
      ''bind gslb vserver VS2 -serviceName GS1'',
      ''bind gslb vserver VS2 -domainName example.com'']"

definition gslb_example_store :: store where
  "gslb_example_store =
     \<lparr>servers = [(''10.0.0.2'', (''S2'', []))],
      srvs = [(''S2'', (''GS1'', ''HTTP'', ''80'', ''g1''))],
      vServers = [(''GS1'', ''VS2'')],
      VIPs = [],
      domains = [(''VS2'', ''example.com'')]\<rparr>"

definition lb_example_server :: string where
  "lb_example_server = ''add server S1 10.0.0.1''"

definition lb_example_group :: string where
  "lb_example_group = ''bind serviceGroup SG1 S1 80 -CustomServerID '' @ [dquote] @ ''c1'' @ [dquote]"

definition lb_example_bind :: string where
  "lb_example_bind = ''bind lb vserver VS1 SG1''"

definition lb_example_vserver :: string where
  "lb_example_vserver = ''add lb vserver VS1 HTTP 192.0.2.10 80 -comment '' @ [dquote] @ ''v1'' @ [dquote]"

text \<open>
  A line of a file as the iterator yields it: with its newline, or without when it is
  the last line of a file that does not end in one.
\<close>

definition with_ends :: "string \<Rightarrow> string set" where
  "with_ends l = {l, l @ [newline]}"

text \<open>
  The store after some of the four lines of the LB example have been read: one flag
  per line.
\<close>

definition lb_example_store :: "bool \<Rightarrow> bool \<Rightarrow> bool \<Rightarrow> bool \<Rightarrow> store" where
  "lb_example_store s1 s2 s3 s4 =
     \<lparr>servers = (if s1 then [(''10.0.0.1'', (''S1'', []))] else []),
      srvs = (if s2 then [(''S1'', (''SG1'', ''LB'', ''80'', ''c1''))] else []),
      vServers = (if s3 then [(''SG1'', ''VS1'')] else []),
      VIPs = (if s4 then [(''VS1'', (''192.0.2.10'', ''HTTP'', ''80'', ''v1''))] else []),
      domains = []\<rparr>"

section \<open>Dispatch of a recognised line\<close>

text \<open>
  The six prefixes exclude one another, so a line that starts (after lowercasing) with
  one of them reaches exactly that parser, whatever its place in the \<open>elif\<close> chain.
\<close>

lemma startswith_append: "startswith s p \<Longrightarrow> s = p @ drop (length p) s"
  unfolding startswith_def by (metis append_take_drop_id)

lemma readline_add_server:
  "startswith (lower l) ''add server'' \<Longrightarrow> readline l st = server_parse l st"
  by (simp add: readline_def)

lemma readline_bind_servicegroup:
  assumes "startswith (lower l) ''bind servicegroup''"
  shows "readline l st = bind_servicegroup_parse l st"
proof -
  from assms obtain r where "lower l = ''bind servicegroup'' @ r"
    using startswith_append by blast
  then show ?thesis using assms by (simp add: readline_def startswith_def)
qed

lemma readline_bind_lb:
  assumes "startswith (lower l) ''bind lb vserver''"
  shows "readline l st = bind_lb_parse l st"
proof -
  from assms obtain r where "lower l = ''bind lb vserver'' @ r"
    using startswith_append by blast
  then show ?thesis using assms by (simp add: readline_def startswith_def)
qed

lemma readline_add_lb:
  assumes "startswith (lower l) ''add lb vserver''"
  shows "readline l st = lb_vserver_parse l st"
proof -
  from assms obtain r where "lower l = ''add lb vserver'' @ r"
    using startswith_append by blast
  then show ?thesis using assms by (simp add: readline_def startswith_def)
qed

lemma readline_add_gslb:
  assumes "startswith (lower l) ''add gslb service''"
  shows "readline l st = gslb_parse l st"
proof -
  from assms obtain r where "lower l = ''add gslb service'' @ r"
    using startswith_append by blast
  then show ?thesis using assms by (simp add: readline_def startswith_def)
qed

lemma readline_bind_gslb:
  assumes "startswith (lower l) ''bind gslb vserver''"
  shows "readline l st = gslb_vserver_parse l st"
proof -
  from assms obtain r where "lower l = ''bind gslb vserver'' @ r"
    using startswith_append by blast
  then show ?thesis using assms by (simp add: readline_def startswith_def)
qed

section \<open>Evaluation and sequencing lemmas\<close>

lemmas str_eval = lower_def lower_char_def startswith_def newline_def dquote_def
  split_ws_def isspace_def partition_tail_def strip_def quote_nl_def item_def char_of_eq_iff

lemma readlines_append:
  "readlines (xs @ ys) st =
     (case readlines xs st of (Inl e, st') \<Rightarrow> (Inl e, st') | (Inr u, st') \<Rightarrow> readlines ys st')"
  by (induction xs arbitrary: st) (auto split: prod.splits sum.splits)

lemma item_Inr: "i < length xs \<Longrightarrow> item xs i = Inr (xs ! i)"
  by (simp add: item_def)

lemma item_Inl: "length xs \<le> i \<Longrightarrow> item xs i = Inl IndexError"
  by (simp add: item_def)

section \<open>The monitor variant of \<open>bind serviceGroup\<close>\<close>

text \<open>
  Claim C8. A line recognised as \<open>bind serviceGroup\<close> that contains the flag
  \<open>-monitorName\<close> returns normally and leaves the whole store, all five dictionaries,
  as it was; so no entry of \<open>srvs\<close> is overwritten.
\<close>

theorem monitor_binding_skipped:
  assumes "startswith (lower l) ''bind servicegroup''" and "contains ''-monitorName'' l"
  shows "readline l st = (Inr (), st)"
  using assms by (simp add: readline_bind_servicegroup bind_servicegroup_parse_def)

text \<open>
  On \<open>bind serviceGroup SG1 -monitorName ping\<close>, with a store whose \<open>srvs\<close> already
  holds the key \<open>-monitorName\<close> that a positional parse of this line would write to.
\<close>

theorem monitor_binding_skipped_witness:
  "startswith (lower monitor_line) ''bind servicegroup'' \<and> contains ''-monitorName'' monitor_line
   \<and> readline monitor_line lb_bound_store = (Inr (), lb_bound_store)"
proof -
  have h1: "startswith (lower monitor_line) ''bind servicegroup''"
    by (simp add: monitor_line_def str_eval)
  have h2: "contains ''-monitorName'' monitor_line"
    by (simp add: monitor_line_def str_eval)
  show ?thesis using h1 h2 monitor_binding_skipped [OF h1 h2] by simp
qed

section \<open>Re-binding a service group\<close>

lemma bind_lb_parse_ok:
  assumes "5 \<le> length (split_ws l)"
  shows "bind_lb_parse l st =
           (Inr (), st\<lparr>vServers := AList.update (split_ws l ! 4) (split_ws l ! 3) (vServers st)\<rparr>)"
  using assms by (simp add: bind_lb_parse_def item_Inr)

lemma bind_lb_lines_return:
  assumes "\<forall>l \<in> set ls. startswith (lower l) ''bind lb vserver'' \<and> 5 \<le> length (split_ws l)"
  shows "\<exists>st'. readlines ls st = (Inr (), st')"
  using assms
proof (induction ls arbitrary: st)
  case Nil
  then show ?case by simp
next
  case (Cons l ls)
  then have "readline l st =
      (Inr (), st\<lparr>vServers := AList.update (split_ws l ! 4) (split_ws l ! 3) (vServers st)\<rparr>)"
    by (simp add: readline_bind_lb bind_lb_parse_ok)
  with Cons show ?case by simp
qed

text \<open>
  Claim C7. After any number of well-formed \<open>bind lb vserver\<close> lines (five tokens or
  more each) followed by one more such line \<open>l'\<close> that binds \<open>serviceGroup\<close> to
  \<open>vServer\<close>, the run has not failed and \<open>vServers[serviceGroup]\<close> is \<open>vServer\<close>:
  the most recent line wins, whatever the earlier lines bound and whatever the store
  held before.
\<close>

theorem bind_lb_last_wins:
  assumes "\<forall>l \<in> set (ls @ [l']).
             startswith (lower l) ''bind lb vserver'' \<and> 5 \<le> length (split_ws l)"
    and "split_ws l' ! 3 = vServer" and "split_ws l' ! 4 = serviceGroup"
  shows "\<exists>st'. readlines (ls @ [l']) st = (Inr (), st')
           \<and> map_of (vServers st') serviceGroup = Some vServer"
proof -
  from assms(1)
  have "\<forall>l \<in> set ls. startswith (lower l) ''bind lb vserver'' \<and> 5 \<le> length (split_ws l)"
    by simp
  then obtain st1 where st1: "readlines ls st = (Inr (), st1)"
    using bind_lb_lines_return by blast
  from assms(1) have l': "startswith (lower l') ''bind lb vserver''" "5 \<le> length (split_ws l')"
    by simp_all
  have "readline l' st1 =
      (Inr (), st1\<lparr>vServers := AList.update serviceGroup vServer (vServers st1)\<rparr>)"
    using l' assms(2,3) by (simp add: readline_bind_lb bind_lb_parse_ok)
  then have "readlines (ls @ [l']) st =
      (Inr (), st1\<lparr>vServers := AList.update serviceGroup vServer (vServers st1)\<rparr>)"
    using st1 by (simp add: readlines_append)
  then show ?thesis by (simp add: update_conv')
qed

text \<open>
  \<open>bind lb vserver VS1 SG1\<close> then \<open>bind lb vserver VS2 SG1\<close>: \<open>SG1\<close> ends bound to
  \<open>VS2\<close>.
\<close>

theorem bind_lb_last_wins_witness:
  "startswith (lower rebind_first) ''bind lb vserver'' \<and> 5 \<le> length (split_ws rebind_first)
   \<and> startswith (lower rebind_second) ''bind lb vserver'' \<and> 5 \<le> length (split_ws rebind_second)
   \<and> split_ws rebind_first ! 3 = ''VS1'' \<and> split_ws rebind_first ! 4 = ''SG1''
   \<and> split_ws rebind_second ! 3 = ''VS2'' \<and> split_ws rebind_second ! 4 = ''SG1''
   \<and> (\<exists>st'. readlines ([rebind_first] @ [rebind_second]) empty_store = (Inr (), st')
           \<and> map_of (vServers st') ''SG1'' = Some ''VS2'')"
proof -
  have p1: "startswith (lower rebind_first) ''bind lb vserver'' \<and> 5 \<le> length (split_ws rebind_first)"
    by (simp add: rebind_first_def str_eval)
  have p2: "startswith (lower rebind_second) ''bind lb vserver'' \<and> 5 \<le> length (split_ws rebind_second)"
    by (simp add: rebind_second_def str_eval)
  have h: "\<forall>l \<in> set ([rebind_first] @ [rebind_second]).
             startswith (lower l) ''bind lb vserver'' \<and> 5 \<le> length (split_ws l)"
    using p1 p2 by simp
  have t3: "split_ws rebind_second ! 3 = ''VS2''"
    by (simp add: rebind_second_def str_eval)
  have t4: "split_ws rebind_second ! 4 = ''SG1''"
    by (simp add: rebind_second_def str_eval)
  have f3: "split_ws rebind_first ! 3 = ''VS1''"
    by (simp add: rebind_first_def str_eval)
  have f4: "split_ws rebind_first ! 4 = ''SG1''"
    by (simp add: rebind_first_def str_eval)
  show ?thesis
    using p1 p2 t3 t4 f3 f4 bind_lb_last_wins [OF h t3 t4, of empty_store] by blast
qed

section \<open>The two forms of \<open>bind gslb vserver\<close>\<close>

text \<open>
  Claim C10. For a line recognised as \<open>bind gslb vserver\<close>: when it contains both
  \<open>-serviceName\<close> and \<open>-domainName\<close> (exact case, anywhere in the line), only the
  service-name form runs: \<open>vServers[token 5] = token 3\<close> when the line has six tokens
  or more, IndexError with the store untouched otherwise, and \<open>domains\<close> is never
  changed; when it contains neither substring the call returns normally with the store
  unchanged.
\<close>

theorem gslb_vserver_dispatch:
  assumes "startswith (lower l) ''bind gslb vserver''"
  shows "(contains ''-serviceName'' l \<and> contains ''-domainName'' l \<longrightarrow>
            readline l st =
              (if 6 \<le> length (split_ws l)
               then (Inr (), st\<lparr>vServers :=
                       AList.update (split_ws l ! 5) (split_ws l ! 3) (vServers st)\<rparr>)
               else (Inl IndexError, st))
            \<and> domains (snd (readline l st)) = domains st)
       \<and> (\<not> contains ''-serviceName'' l \<and> \<not> contains ''-domainName'' l \<longrightarrow>
            readline l st = (Inr (), st))"
  using assms
  by (simp add: readline_bind_gslb gslb_vserver_parse_def item_def)

text \<open>
  A line with both flags and eight tokens, a line with both substrings in one token
  (four tokens), and a line whose flags are written in another case.
\<close>

theorem gslb_vserver_dispatch_witness:
  "startswith (lower both_flags_line) ''bind gslb vserver''
   \<and> contains ''-serviceName'' both_flags_line \<and> contains ''-domainName'' both_flags_line
   \<and> readline both_flags_line empty_store = (Inr (), empty_store\<lparr>vServers := [(''GS1'', ''VS2'')]\<rparr>)
   \<and> startswith (lower both_flags_short_line) ''bind gslb vserver''
   \<and> contains ''-serviceName'' both_flags_short_line \<and> contains ''-domainName'' both_flags_short_line
   \<and> readline both_flags_short_line empty_store = (Inl IndexError, empty_store)
   \<and> startswith (lower lowercase_flag_line) ''bind gslb vserver''
   \<and> \<not> contains ''-serviceName'' lowercase_flag_line \<and> \<not> contains ''-domainName'' lowercase_flag_line
   \<and> readline lowercase_flag_line empty_store = (Inr (), empty_store)"
proof -
  have a1: "startswith (lower both_flags_line) ''bind gslb vserver''"
    by (simp add: both_flags_line_def str_eval)
  have a2: "contains ''-serviceName'' both_flags_line"
    by (simp add: both_flags_line_def str_eval)
  have a3: "contains ''-domainName'' both_flags_line"
    by (simp add: both_flags_line_def str_eval)
  have a4: "split_ws both_flags_line = [''bind'', ''gslb'', ''vserver'', ''VS2'', ''-serviceName'', ''GS1'', ''-domainName'', ''example.com'']"
    by (simp add: both_flags_line_def str_eval)
  have b1: "startswith (lower both_flags_short_line) ''bind gslb vserver''"
    by (simp add: both_flags_short_line_def str_eval)
  have b2: "contains ''-serviceName'' both_flags_short_line"
    by (simp add: both_flags_short_line_def str_eval)
  have b3: "contains ''-domainName'' both_flags_short_line"
    by (simp add: both_flags_short_line_def str_eval)
  have b4: "split_ws both_flags_short_line = [''bind'', ''gslb'', ''vserver'', ''-serviceName-domainName'']"
    by (simp add: both_flags_short_line_def str_eval)
  have c1: "startswith (lower lowercase_flag_line) ''bind gslb vserver''"
    by (simp add: lowercase_flag_line_def str_eval)
  have c2: "\<not> contains ''-serviceName'' lowercase_flag_line"
    by (simp add: lowercase_flag_line_def str_eval)
  have c3: "\<not> contains ''-domainName'' lowercase_flag_line"
    by (simp add: lowercase_flag_line_def str_eval)
  have r1: "readline both_flags_line empty_store = (Inr (), empty_store\<lparr>vServers := [(''GS1'', ''VS2'')]\<rparr>)"
    using gslb_vserver_dispatch [OF a1, of empty_store] a2 a3 a4 by (simp add: empty_store_def)
  have r2: "readline both_flags_short_line empty_store = (Inl IndexError, empty_store)"
    using gslb_vserver_dispatch [OF b1, of empty_store] b2 b3 b4 by simp
  have r3: "readline lowercase_flag_line empty_store = (Inr (), empty_store)"
    using gslb_vserver_dispatch [OF c1, of empty_store] c2 c3 by simp
  show ?thesis using a1 a2 a3 b1 b2 b3 c1 c2 c3 r1 r2 r3 by simp
qed

section \<open>Accumulation of domains\<close>

lemma count_update_fresh:
  "map_of al k = None \<Longrightarrow> length (filter (\<lambda>e. fst e = k) (AList.update k v al)) = 1"
  by (induction al) (auto split: if_splits)

lemma gslb_domain_form:
  assumes "startswith (lower l) ''bind gslb vserver''" and "\<not> contains ''-serviceName'' l"
    and "contains ''-domainName'' l" and "6 \<le> length (split_ws l)"
  shows "readline l st =
           (Inr (), st\<lparr>domains :=
              AList.update (split_ws l ! 3)
                (case map_of (domains st) (split_ws l ! 3) of
                   None \<Rightarrow> split_ws l ! 5
                 | Some old \<Rightarrow> old @ [newline] @ split_ws l ! 5)
                (domains st)\<rparr>)"
  using assms
  by (simp add: readline_bind_gslb gslb_vserver_parse_def item_Inr split: option.splits)

text \<open>
  Claim C6. Two \<open>bind gslb vserver\<close> lines of the domain form (no \<open>-serviceName\<close> in
  the line, \<open>-domainName\<close> in it, six tokens or more) naming the same virtual server
  in token 3 and the domains \<open>d1\<close> and \<open>d2\<close> in token 5, processed from a store with
  no domain for that virtual server: \<open>domains\<close> ends with exactly one entry under that
  key, and its value is \<open>d1\<close>, a newline, \<open>d2\<close>. Nothing requires \<open>d1\<close> and \<open>d2\<close>
  to differ, so a repeated domain is kept twice.
\<close>

theorem domain_accumulation:
  assumes "startswith (lower l1) ''bind gslb vserver''"
    and "startswith (lower l2) ''bind gslb vserver''"
    and "\<not> contains ''-serviceName'' l1" and "\<not> contains ''-serviceName'' l2"
    and "contains ''-domainName'' l1" and "contains ''-domainName'' l2"
    and "6 \<le> length (split_ws l1)" and "6 \<le> length (split_ws l2)"
    and "split_ws l1 ! 3 = vserver" and "split_ws l2 ! 3 = vserver"
    and "split_ws l1 ! 5 = d1" and "split_ws l2 ! 5 = d2"
    and "map_of (domains st) vserver = None"
  shows "\<exists>st'. readlines [l1, l2] st = (Inr (), st')
           \<and> map_of (domains st') vserver = Some (d1 @ [newline] @ d2)
           \<and> length (filter (\<lambda>e. fst e = vserver) (domains st')) = 1"
proof -
  let ?st1 = "st\<lparr>domains := AList.update vserver d1 (domains st)\<rparr>"
  let ?st2 = "st\<lparr>domains := AList.update vserver (d1 @ [newline] @ d2) (domains st)\<rparr>"
  have r1: "readline l1 st = (Inr (), ?st1)"
    using gslb_domain_form [OF assms(1) assms(3) assms(5) assms(7), of st] assms(9,11,13)
    by simp
  have "map_of (domains ?st1) vserver = Some d1"
    by (simp add: update_conv')
  then have r2: "readline l2 ?st1 = (Inr (), ?st2)"
    using gslb_domain_form [OF assms(2) assms(4) assms(6) assms(8), of ?st1] assms(10,12)
    by simp
  have "readlines [l1, l2] st = (Inr (), ?st2)"
    using r1 r2 by simp
  moreover have "map_of (domains ?st2) vserver = Some (d1 @ [newline] @ d2)"
    by (simp add: update_conv')
  moreover have "length (filter (\<lambda>e. fst e = vserver) (domains ?st2)) = 1"
    using assms(13) by (simp add: count_update_fresh)
  ultimately show ?thesis by blast
qed

text \<open>
  \<open>example.com\<close> then \<open>example.org\<close> bound to \<open>VS2\<close>, and \<open>example.org\<close> bound
  to it twice.
\<close>

theorem domain_accumulation_witness:
  "startswith (lower domain_line_a) ''bind gslb vserver''
   \<and> startswith (lower domain_line_b) ''bind gslb vserver''
   \<and> \<not> contains ''-serviceName'' domain_line_a \<and> \<not> contains ''-serviceName'' domain_line_b
   \<and> contains ''-domainName'' domain_line_a \<and> contains ''-domainName'' domain_line_b
   \<and> 6 \<le> length (split_ws domain_line_a) \<and> 6 \<le> length (split_ws domain_line_b)
   \<and> split_ws domain_line_a ! 3 = ''VS2'' \<and> split_ws domain_line_b ! 3 = ''VS2''
   \<and> split_ws domain_line_a ! 5 = ''example.com'' \<and> split_ws domain_line_b ! 5 = ''example.org''
   \<and> map_of (domains empty_store) ''VS2'' = None
   \<and> (\<exists>st'. readlines [domain_line_a, domain_line_b] empty_store = (Inr (), st')
          \<and> map_of (domains st') ''VS2'' = Some (''example.com'' @ [newline] @ ''example.org'')
          \<and> length (filter (\<lambda>e. fst e = ''VS2'') (domains st')) = 1)
   \<and> (\<exists>st'. readlines [domain_line_b, domain_line_b] empty_store = (Inr (), st')
          \<and> map_of (domains st') ''VS2'' = Some (''example.org'' @ [newline] @ ''example.org'')
          \<and> length (filter (\<lambda>e. fst e = ''VS2'') (domains st')) = 1)"
proof -
  have a1: "startswith (lower domain_line_a) ''bind gslb vserver''"
    by (simp add: domain_line_a_def str_eval)
  have b1: "startswith (lower domain_line_b) ''bind gslb vserver''"
    by (simp add: domain_line_b_def str_eval)
  have a2: "\<not> contains ''-serviceName'' domain_line_a"
    by (simp add: domain_line_a_def str_eval)
  have b2: "\<not> contains ''-serviceName'' domain_line_b"
    by (simp add: domain_line_b_def str_eval)
  have a3: "contains ''-domainName'' domain_line_a"
    by (simp add: domain_line_a_def str_eval)
  have b3: "contains ''-domainName'' domain_line_b"
    by (simp add: domain_line_b_def str_eval)
  have ta: "split_ws domain_line_a =
      [''bind'', ''gslb'', ''vserver'', ''VS2'', ''-domainName'', ''example.com'', ''-TTL'', ''5'']"
    by (simp add: domain_line_a_def str_eval)
  have tb: "split_ws domain_line_b =
      [''bind'', ''gslb'', ''vserver'', ''VS2'', ''-domainName'', ''example.org'']"
    by (simp add: domain_line_b_def str_eval)
  have a4: "6 \<le> length (split_ws domain_line_a)" by (simp add: ta)
  have b4: "6 \<le> length (split_ws domain_line_b)" by (simp add: tb)
  have a5: "split_ws domain_line_a ! 3 = ''VS2''" by (simp add: ta)
  have b5: "split_ws domain_line_b ! 3 = ''VS2''" by (simp add: tb)
  have a6: "split_ws domain_line_a ! 5 = ''example.com''" by (simp add: ta)
  have b6: "split_ws domain_line_b ! 5 = ''example.org''" by (simp add: tb)
  have e: "map_of (domains empty_store) ''VS2'' = None"
    by (simp add: empty_store_def)
  note ab = domain_accumulation [OF a1 b1 a2 b2 a3 b3 a4 b4 a5 b5 a6 b6 e]
  note bb = domain_accumulation [OF b1 b1 b2 b2 b3 b3 b4 b4 b5 b5 b6 b6 e]
  show ?thesis
    using a1 b1 a2 b2 a3 b3 a4 b4 a5 b5 a6 b6 e ab bb by blast
qed

section \<open>Directive lines with too few tokens\<close>

lemma server_parse_short:
  "length (split_ws l) < 4 \<Longrightarrow> server_parse l st = (Inl IndexError, st)"
  by (simp add: server_parse_def item_def)

lemma bind_servicegroup_parse_short:
  "\<not> contains ''-monitorName'' l \<Longrightarrow> length (split_ws l) < 5 \<Longrightarrow>
     bind_servicegroup_parse l st = (Inl IndexError, st)"
  by (simp add: bind_servicegroup_parse_def item_def)

lemma bind_lb_parse_short:
  "length (split_ws l) < 5 \<Longrightarrow> bind_lb_parse l st = (Inl IndexError, st)"
  by (simp add: bind_lb_parse_def item_def)

lemma lb_vserver_parse_short:
  "length (split_ws l) < 7 \<Longrightarrow> lb_vserver_parse l st = (Inl IndexError, st)"
  by (simp add: lb_vserver_parse_def item_def)

lemma gslb_parse_short:
  "length (split_ws l) < 7 \<Longrightarrow> gslb_parse l st = (Inl IndexError, st)"
  by (simp add: gslb_parse_def item_def)

lemma gslb_vserver_parse_short:
  "contains ''-serviceName'' l \<or> contains ''-domainName'' l \<Longrightarrow> length (split_ws l) < 6 \<Longrightarrow>
     gslb_vserver_parse l st = (Inl IndexError, st)"
  by (auto simp add: gslb_vserver_parse_def item_def)

lemma readlines_stops:
  assumes "readlines pre st0 = (Inr (), st)" and "readline l st = (Inl e, st')"
  shows "readlines (pre @ l # post) st0 = (Inl e, st')"
  using assms by (simp add: readlines_append)

text \<open>
  Claim C9 fails as stated: two recognised directive lines with fewer tokens than the
  highest position their parser indexes return normally. A \<open>bind serviceGroup\<close> line
  with \<open>-monitorName\<close> and four tokens (the parser reads up to index 4) is skipped by
  the monitor guard, and a \<open>bind gslb vserver\<close> line with neither flag and four tokens
  (the parser reads up to index 5) falls through both branches.
\<close>

theorem short_directive_counterexample:
  "startswith (lower short_monitor_line) ''bind servicegroup''
   \<and> length (split_ws short_monitor_line) = 4
   \<and> readline short_monitor_line empty_store = (Inr (), empty_store)
   \<and> startswith (lower flagless_gslb_vserver_line) ''bind gslb vserver''
   \<and> length (split_ws flagless_gslb_vserver_line) = 4
   \<and> readline flagless_gslb_vserver_line empty_store = (Inr (), empty_store)
   \<and> main [[short_monitor_line, flagless_gslb_vserver_line]] = Inr ([lb_header], [gslb_header])"
proof -
  have m: "readline short_monitor_line empty_store = (Inr (), empty_store)"
    by (simp add: short_monitor_line_def readline_def bind_servicegroup_parse_def str_eval)
  have g: "readline flagless_gslb_vserver_line empty_store = (Inr (), empty_store)"
    by (simp add: flagless_gslb_vserver_line_def readline_def gslb_vserver_parse_def str_eval)
  have "main [[short_monitor_line, flagless_gslb_vserver_line]] = Inr ([lb_header], [gslb_header])"
    using m g
    by (simp add: main_def lb_report_def gslb_report_def lb_rows_def gslb_rows_def
        lb_rows_over_def gslb_rows_over_def keys_def empty_store_def)
  moreover have "startswith (lower short_monitor_line) ''bind servicegroup''"
    by (simp add: short_monitor_line_def str_eval)
  moreover have "length (split_ws short_monitor_line) = 4"
    by (simp add: short_monitor_line_def str_eval)
  moreover have "startswith (lower flagless_gslb_vserver_line) ''bind gslb vserver''"
    by (simp add: flagless_gslb_vserver_line_def str_eval)
  moreover have "length (split_ws flagless_gslb_vserver_line) = 4"
    by (simp add: flagless_gslb_vserver_line_def str_eval)
  ultimately show ?thesis using m g by simp
qed

text \<open>
  Claim C9, amended. A line that reaches a parser's indexing with too few tokens: an
  \<open>add server\<close> line with fewer than 4 tokens, a \<open>bind serviceGroup\<close> line without
  \<open>-monitorName\<close> and fewer than 5, a \<open>bind lb vserver\<close> line with fewer than 5, an
  \<open>add lb vserver\<close> or \<open>add gslb service\<close> line with fewer than 7, a
  \<open>bind gslb vserver\<close> line containing \<open>-serviceName\<close> or \<open>-domainName\<close> with fewer
  than 6. Wherever such a line stands in the input, after lines that were read without
  error, \<open>readline\<close> raises IndexError and leaves the store exactly as the earlier
  lines made it, the reading loop stops there with that store, and the run ends with
  the error instead of the two reports.
\<close>

theorem short_directive_raises:
  assumes "(startswith (lower l) ''add server'' \<and> length (split_ws l) < 4)
         \<or> (startswith (lower l) ''bind servicegroup'' \<and> \<not> contains ''-monitorName'' l
              \<and> length (split_ws l) < 5)
         \<or> (startswith (lower l) ''bind lb vserver'' \<and> length (split_ws l) < 5)
         \<or> (startswith (lower l) ''add lb vserver'' \<and> length (split_ws l) < 7)
         \<or> (startswith (lower l) ''add gslb service'' \<and> length (split_ws l) < 7)
         \<or> (startswith (lower l) ''bind gslb vserver''
              \<and> (contains ''-serviceName'' l \<or> contains ''-domainName'' l)
              \<and> length (split_ws l) < 6)"
    and "readlines pre empty_store = (Inr (), st)"
    and "concat confFiles = pre @ l # post"
  shows "readline l st = (Inl IndexError, st)
       \<and> readlines (concat confFiles) empty_store = (Inl IndexError, st)
       \<and> main confFiles = Inl IndexError"
proof -
  have r: "readline l st = (Inl IndexError, st)"
    using assms(1)
    by (elim disjE conjE)
      (simp_all add: readline_add_server readline_bind_servicegroup readline_bind_lb
        readline_add_lb readline_add_gslb readline_bind_gslb server_parse_short
        bind_servicegroup_parse_short bind_lb_parse_short lb_vserver_parse_short
        gslb_parse_short gslb_vserver_parse_short)
  then have s: "readlines (concat confFiles) empty_store = (Inl IndexError, st)"
    using assms(2,3) by (simp add: readlines_stops)
  have "confFiles \<noteq> []" using assms(3) by auto
  then have "main confFiles = Inl IndexError"
    using s by (simp add: main_def)
  with r s show ?thesis by simp
qed

text \<open>
  One short line of each kind. The \<open>add server\<close> line with three tokens stands
  second in the first of two files, after a well-formed \<open>add server\<close> line: the
  store at the failure holds that first server and nothing else.
\<close>

theorem short_directive_raises_witness:
  "startswith (lower short_server_line) ''add server'' \<and> length (split_ws short_server_line) < 4
   \<and> readlines [good_server_line] empty_store
        = (Inr (), empty_store\<lparr>servers := [(''10.0.0.1'', (''S1'', []))]\<rparr>)
   \<and> readline short_server_line (empty_store\<lparr>servers := [(''10.0.0.1'', (''S1'', []))]\<rparr>)
        = (Inl IndexError, empty_store\<lparr>servers := [(''10.0.0.1'', (''S1'', []))]\<rparr>)
   \<and> readlines (concat [[good_server_line, short_server_line], [rebind_first]]) empty_store
        = (Inl IndexError, empty_store\<lparr>servers := [(''10.0.0.1'', (''S1'', []))]\<rparr>)
   \<and> main [[good_server_line, short_server_line], [rebind_first]] = Inl IndexError
   \<and> startswith (lower short_servicegroup_line) ''bind servicegroup''
   \<and> \<not> contains ''-monitorName'' short_servicegroup_line
   \<and> length (split_ws short_servicegroup_line) < 5
   \<and> readline short_servicegroup_line empty_store = (Inl IndexError, empty_store)
   \<and> main [[short_servicegroup_line]] = Inl IndexError
   \<and> startswith (lower short_bind_lb_line) ''bind lb vserver''
   \<and> length (split_ws short_bind_lb_line) < 5
   \<and> readline short_bind_lb_line empty_store = (Inl IndexError, empty_store)
   \<and> main [[short_bind_lb_line]] = Inl IndexError
   \<and> startswith (lower short_lb_vserver_line) ''add lb vserver''
   \<and> length (split_ws short_lb_vserver_line) < 7
   \<and> readline short_lb_vserver_line empty_store = (Inl IndexError, empty_store)
   \<and> main [[short_lb_vserver_line]] = Inl IndexError
   \<and> startswith (lower short_gslb_line) ''add gslb service''
   \<and> length (split_ws short_gslb_line) < 7
   \<and> readline short_gslb_line empty_store = (Inl IndexError, empty_store)
   \<and> main [[short_gslb_line]] = Inl IndexError
   \<and> startswith (lower short_gslb_vserver_line) ''bind gslb vserver''
   \<and> contains ''-domainName'' short_gslb_vserver_line
   \<and> length (split_ws short_gslb_vserver_line) < 6
   \<and> readline short_gslb_vserver_line empty_store = (Inl IndexError, empty_store)
   \<and> main [[short_gslb_vserver_line]] = Inl IndexError"
proof -
  let ?st = "empty_store\<lparr>servers := [(''10.0.0.1'', (''S1'', []))]\<rparr>"
  have a1: "startswith (lower short_server_line) ''add server''"
    by (simp add: short_server_line_def str_eval)
  have a2: "length (split_ws short_server_line) < 4"
    by (simp add: short_server_line_def str_eval)
  have pre: "readlines [good_server_line] empty_store = (Inr (), ?st)"
    by (simp add: good_server_line_def readline_def server_parse_def empty_store_def str_eval)
  have cc: "concat [[good_server_line, short_server_line], [rebind_first]]
              = [good_server_line] @ short_server_line # [rebind_first]"
    by simp
  have e: "readlines [] empty_store = (Inr (), empty_store)"
    by simp
  have b1: "startswith (lower short_servicegroup_line) ''bind servicegroup''"
    by (simp add: short_servicegroup_line_def str_eval)
  have b2: "\<not> contains ''-monitorName'' short_servicegroup_line"
    by (simp add: short_servicegroup_line_def str_eval)
  have b3: "length (split_ws short_servicegroup_line) < 5"
    by (simp add: short_servicegroup_line_def str_eval)
  have c1: "startswith (lower short_bind_lb_line) ''bind lb vserver''"
    by (simp add: short_bind_lb_line_def str_eval)
  have c2: "length (split_ws short_bind_lb_line) < 5"
    by (simp add: short_bind_lb_line_def str_eval)
  have d1: "startswith (lower short_lb_vserver_line) ''add lb vserver''"
    by (simp add: short_lb_vserver_line_def str_eval)
  have d2: "length (split_ws short_lb_vserver_line) < 7"
    by (simp add: short_lb_vserver_line_def str_eval)
  have f1: "startswith (lower short_gslb_line) ''add gslb service''"
    by (simp add: short_gslb_line_def str_eval)
  have f2: "length (split_ws short_gslb_line) < 7"
    by (simp add: short_gslb_line_def str_eval)
  have g1: "startswith (lower short_gslb_vserver_line) ''bind gslb vserver''"
    by (simp add: short_gslb_vserver_line_def str_eval)
  have g2: "contains ''-domainName'' short_gslb_vserver_line"
    by (simp add: short_gslb_vserver_line_def str_eval)
  have g3: "length (split_ws short_gslb_vserver_line) < 6"
    by (simp add: short_gslb_vserver_line_def str_eval)
  have one: "concat [[x]] = [] @ x # []" for x :: string
    by simp
  note ra = short_directive_raises [of short_server_line "[good_server_line]" ?st
      "[[good_server_line, short_server_line], [rebind_first]]" "[rebind_first]", OF _ pre cc]
  note rb = short_directive_raises [of short_servicegroup_line "[]" empty_store
      "[[short_servicegroup_line]]" "[]", OF _ e one]
  note rc = short_directive_raises [of short_bind_lb_line "[]" empty_store
      "[[short_bind_lb_line]]" "[]", OF _ e one]
  note rd = short_directive_raises [of short_lb_vserver_line "[]" empty_store
      "[[short_lb_vserver_line]]" "[]", OF _ e one]
  note rf = short_directive_raises [of short_gslb_line "[]" empty_store
      "[[short_gslb_line]]" "[]", OF _ e one]
  note rg = short_directive_raises [of short_gslb_vserver_line "[]" empty_store
      "[[short_gslb_vserver_line]]" "[]", OF _ e one]
  show ?thesis
    using a1 a2 pre b1 b2 b3 c1 c2 d1 d2 f1 f2 g1 g2 g3 ra rb rc rd rf rg
    by simp
qed

section \<open>The server keys are distinct\<close>

lemma server_parse_distinct:
  "distinct (keys (servers st)) \<Longrightarrow> distinct (keys (servers (snd (server_parse l st))))"
  by (simp add: server_parse_def keys_def distinct_update Let_def split: sum.splits)

lemma bind_servicegroup_parse_servers:
  "servers (snd (bind_servicegroup_parse l st)) = servers st"
  by (simp add: bind_servicegroup_parse_def Let_def split: sum.splits)

lemma bind_lb_parse_servers: "servers (snd (bind_lb_parse l st)) = servers st"
  by (simp add: bind_lb_parse_def split: sum.splits)

lemma lb_vserver_parse_servers: "servers (snd (lb_vserver_parse l st)) = servers st"
  by (simp add: lb_vserver_parse_def Let_def split: sum.splits)

lemma gslb_parse_servers: "servers (snd (gslb_parse l st)) = servers st"
  by (simp add: gslb_parse_def Let_def split: sum.splits)

lemma gslb_vserver_parse_servers: "servers (snd (gslb_vserver_parse l st)) = servers st"
  by (simp add: gslb_vserver_parse_def split: sum.splits option.splits)

lemma readline_servers_distinct:
  assumes "distinct (keys (servers st))"
  shows "distinct (keys (servers (snd (readline l st))))"
  using assms
  by (simp add: readline_def server_parse_distinct bind_servicegroup_parse_servers
      bind_lb_parse_servers lb_vserver_parse_servers gslb_parse_servers
      gslb_vserver_parse_servers)

lemma readlines_servers_distinct:
  assumes "distinct (keys (servers st))"
  shows "distinct (keys (servers (snd (readlines ls st))))"
  using assms
proof (induction ls arbitrary: st)
  case Nil
  then show ?case by simp
next
  case (Cons l ls)
  obtain r st' where r: "readline l st = (r, st')" by (cases "readline l st")
  with Cons.prems have d: "distinct (keys (servers st'))"
    using readline_servers_distinct [of st l] by simp
  show ?case
  proof (cases r)
    case (Inl e)
    with r d show ?thesis by simp
  next
    case (Inr u)
    with r Cons.IH [OF d] show ?thesis by simp
  qed
qed

lemma run_servers_distinct:
  assumes "readlines ls empty_store = (Inr (), st)" and "mset ks = mset (keys (servers st))"
  shows "distinct ks" and "set ks = set (keys (servers st))"
proof -
  have "distinct (keys (servers (snd (readlines ls empty_store))))"
    by (rule readlines_servers_distinct) (simp add: empty_store_def keys_def)
  then have "distinct (keys (servers st))" using assms(1) by simp
  then show "distinct ks" using assms(2) by (metis mset_eq_imp_distinct_iff)
  show "set ks = set (keys (servers st))" using assms(2) by (rule mset_eq_setD)
qed

section \<open>Rows of one server in a report\<close>

lemma filter_last_concat:
  assumes "distinct ks" and "\<And>k r. r \<in> set (f k) \<Longrightarrow> last r = k"
  shows "filter (\<lambda>r. last r = IP) (concat (map f ks)) = (if IP \<in> set ks then f IP else [])"
  using assms(1)
proof (induction ks)
  case Nil
  then show ?case by simp
next
  case (Cons k ks)
  have own: "filter (\<lambda>r. last r = j) (f j) = f j" for j
    using assms(2) by (simp add: filter_id_conv)
  have other: "filter (\<lambda>r. last r = IP) (f k) = []" if "k \<noteq> IP"
    using assms(2) that by (auto simp: filter_empty_conv)
  show ?case
  proof (cases "k = IP")
    case True
    with Cons show ?thesis by (simp add: own)
  next
    case False
    with Cons show ?thesis by (simp add: other)
  qed
qed

lemma lb_row_last: "r \<in> set (lb_row st k) \<Longrightarrow> last r = k"
  by (auto simp: lb_row_def split: option.splits)

lemma gslb_row_last: "r \<in> set (gslb_row st k) \<Longrightarrow> last r = k"
  by (auto simp: gslb_row_def split: option.splits)

lemma lb_rows_of_server:
  assumes "distinct ks" and "IP \<in> set ks"
  shows "filter (\<lambda>r. last r = IP) (lb_rows_over st ks) = lb_row st IP"
  unfolding lb_rows_over_def
  using filter_last_concat [of ks "lb_row st" IP] assms lb_row_last by simp

lemma gslb_rows_of_server:
  assumes "distinct ks" and "IP \<in> set ks"
  shows "filter (\<lambda>r. last r = IP) (gslb_rows_over st ks) = gslb_row st IP"
  unfolding gslb_rows_over_def
  using filter_last_concat [of ks "gslb_row st" IP] assms gslb_row_last by simp

lemma Bex_last_filter:
  "(\<exists>r \<in> set rows. last r = IP) \<longleftrightarrow> filter (\<lambda>r. last r = IP) rows \<noteq> []"
  by (auto simp: filter_empty_conv)

lemma server_key:
  "map_of (servers st) IP = Some v \<Longrightarrow> IP \<in> set (keys (servers st))"
  by (auto simp: keys_def dest: map_of_SomeD intro: rev_image_eqI)

section \<open>The LB report\<close>

text \<open>
  Claim C1. Take any input that is read without error, any order \<open>ks\<close> in which the
  keys of \<open>servers\<close> are enumerated, and any server \<open>IP\<close> recorded with name
  \<open>srvName\<close> and comment \<open>srvComment\<close>. A row of a server is a row whose last column
  is its IP. The LB rows contain a row of that server if and only if
  \<open>srvs[srvName]\<close>, \<open>vServers[serviceGroup]\<close> and \<open>VIPs[vServer]\<close> all exist; when
  they do, the rows of that server are exactly one row, with the VIP first and the
  server's IP last; when \<open>srvs[srvName]\<close> is missing, or \<open>vServers[serviceGroup]\<close>, or
  \<open>VIPs[vServer]\<close>, there is no row of that server.
\<close>

theorem lb_row_iff_complete_chain:
  assumes "readlines ls empty_store = (Inr (), st)"
    and "mset ks = mset (keys (servers st))"
    and "map_of (servers st) IP = Some (srvName, srvComment)"
  shows "((\<exists>r \<in> set (lb_rows_over st ks). last r = IP) \<longleftrightarrow>
            (\<exists>g k p c v vip ty vp vc.
                map_of (srvs st) srvName = Some (g, k, p, c)
              \<and> map_of (vServers st) g = Some v
              \<and> map_of (VIPs st) v = Some (vip, ty, vp, vc)))
       \<and> (map_of (srvs st) srvName = Some (serviceGroup, kind, port, CustomServerID)
            \<and> map_of (vServers st) serviceGroup = Some vServer
            \<and> map_of (VIPs st) vServer = Some (VIP, serviceType, VIPport, VIPcomment) \<longrightarrow>
          filter (\<lambda>r. last r = IP) (lb_rows_over st ks)
            = [[VIP, serviceType, VIPport, VIPcomment, vServer, serviceGroup, port,
                CustomServerID, srvName, srvComment, IP]])
       \<and> (map_of (srvs st) srvName = None \<longrightarrow>
            filter (\<lambda>r. last r = IP) (lb_rows_over st ks) = [])
       \<and> (map_of (srvs st) srvName = Some (serviceGroup, kind, port, CustomServerID)
            \<and> map_of (vServers st) serviceGroup = None \<longrightarrow>
            filter (\<lambda>r. last r = IP) (lb_rows_over st ks) = [])
       \<and> (map_of (srvs st) srvName = Some (serviceGroup, kind, port, CustomServerID)
            \<and> map_of (vServers st) serviceGroup = Some vServer
            \<and> map_of (VIPs st) vServer = None \<longrightarrow>
            filter (\<lambda>r. last r = IP) (lb_rows_over st ks) = [])"
proof -
  have "distinct ks" and "set ks = set (keys (servers st))"
    using run_servers_distinct [OF assms(1,2)] by simp_all
  moreover have "IP \<in> set (keys (servers st))"
    using assms(3) by (rule server_key)
  ultimately have rows: "filter (\<lambda>r. last r = IP) (lb_rows_over st ks) = lb_row st IP"
    by (simp add: lb_rows_of_server)
  have iff: "(\<exists>r \<in> set (lb_rows_over st ks). last r = IP) \<longleftrightarrow> lb_row st IP \<noteq> []"
    by (simp add: Bex_last_filter rows)
  have chain: "lb_row st IP \<noteq> [] \<longleftrightarrow>
      (\<exists>g k p c v vip ty vp vc.
          map_of (srvs st) srvName = Some (g, k, p, c)
        \<and> map_of (vServers st) g = Some v
        \<and> map_of (VIPs st) v = Some (vip, ty, vp, vc))"
    using assms(3) by (auto simp: lb_row_def split: option.splits)
  show ?thesis
    unfolding rows iff chain using assms(3) by (simp add: lb_row_def)
qed

text \<open>
  Four servers: \<open>10.0.0.1\<close> with a complete chain, \<open>10.0.0.2\<close> bound to no service
  group, \<open>10.0.0.3\<close> whose group is bound to no virtual server, \<open>10.0.0.4\<close> whose
  virtual server has no \<open>add lb vserver\<close> line.
\<close>

theorem lb_row_iff_complete_chain_witness:
  "readlines chain_lines empty_store = (Inr (), chain_store)
   \<and> mset (keys (servers chain_store)) = mset (keys (servers chain_store))
   \<and> map_of (servers chain_store) ''10.0.0.1'' = Some (''S1'', [])
   \<and> map_of (srvs chain_store) ''S1'' = Some (''SG1'', ''LB'', ''80'', ''c1'')
   \<and> map_of (vServers chain_store) ''SG1'' = Some ''VS1''
   \<and> map_of (VIPs chain_store) ''VS1'' = Some (''192.0.2.10'', ''HTTP'', ''80'', ''v1'')
   \<and> (\<exists>r \<in> set (lb_rows chain_store). last r = ''10.0.0.1'')
   \<and> filter (\<lambda>r. last r = ''10.0.0.1'') (lb_rows chain_store)
        = [[''192.0.2.10'', ''HTTP'', ''80'', ''v1'', ''VS1'', ''SG1'', ''80'', ''c1'', ''S1'', [],
            ''10.0.0.1'']]
   \<and> map_of (servers chain_store) ''10.0.0.2'' = Some (''S2'', [])
   \<and> map_of (srvs chain_store) ''S2'' = None
   \<and> filter (\<lambda>r. last r = ''10.0.0.2'') (lb_rows chain_store) = []
   \<and> map_of (servers chain_store) ''10.0.0.3'' = Some (''S3'', [])
   \<and> map_of (srvs chain_store) ''S3'' = Some (''SG3'', ''LB'', ''8080'', [])
   \<and> map_of (vServers chain_store) ''SG3'' = None
   \<and> filter (\<lambda>r. last r = ''10.0.0.3'') (lb_rows chain_store) = []
   \<and> map_of (servers chain_store) ''10.0.0.4'' = Some (''S4'', [])
   \<and> map_of (srvs chain_store) ''S4'' = Some (''SG4'', ''LB'', ''443'', [])
   \<and> map_of (vServers chain_store) ''SG4'' = Some ''VS4''
   \<and> map_of (VIPs chain_store) ''VS4'' = None
   \<and> filter (\<lambda>r. last r = ''10.0.0.4'') (lb_rows chain_store) = []"
proof -
  have run: "readlines chain_lines empty_store = (Inr (), chain_store)"
    by (simp add: chain_lines_def chain_store_def empty_store_def readline_def server_parse_def
        bind_servicegroup_parse_def bind_lb_parse_def lb_vserver_parse_def str_eval)
  have ks: "mset (keys (servers chain_store)) = mset (keys (servers chain_store))"
    by simp
  have s1: "map_of (servers chain_store) ''10.0.0.1'' = Some (''S1'', [])"
    and s2: "map_of (servers chain_store) ''10.0.0.2'' = Some (''S2'', [])"
    and s3: "map_of (servers chain_store) ''10.0.0.3'' = Some (''S3'', [])"
    and s4: "map_of (servers chain_store) ''10.0.0.4'' = Some (''S4'', [])"
    by (simp_all add: chain_store_def)
  have b1: "map_of (srvs chain_store) ''S1'' = Some (''SG1'', ''LB'', ''80'', ''c1'')"
    and b2: "map_of (srvs chain_store) ''S2'' = None"
    and b3: "map_of (srvs chain_store) ''S3'' = Some (''SG3'', ''LB'', ''8080'', [])"
    and b4: "map_of (srvs chain_store) ''S4'' = Some (''SG4'', ''LB'', ''443'', [])"
    by (simp_all add: chain_store_def)
  have v1: "map_of (vServers chain_store) ''SG1'' = Some ''VS1''"
    and v3: "map_of (vServers chain_store) ''SG3'' = None"
    and v4: "map_of (vServers chain_store) ''SG4'' = Some ''VS4''"
    by (simp_all add: chain_store_def)
  have p1: "map_of (VIPs chain_store) ''VS1'' = Some (''192.0.2.10'', ''HTTP'', ''80'', ''v1'')"
    and p4: "map_of (VIPs chain_store) ''VS4'' = None"
    by (simp_all add: chain_store_def)
  note t1 = lb_row_iff_complete_chain [OF run ks s1,
      of "''SG1''" "''LB''" "''80''" "''c1''" "''VS1''" "''192.0.2.10''" "''HTTP''" "''80''" "''v1''"]
  note t2 = lb_row_iff_complete_chain [OF run ks s2]
  note t3 = lb_row_iff_complete_chain [OF run ks s3, of "''SG3''" "''LB''" "''8080''" "[]"]
  note t4 = lb_row_iff_complete_chain [OF run ks s4, of "''SG4''" "''LB''" "''443''" "[]" "''VS4''"]
  have r1: "\<exists>r \<in> set (lb_rows chain_store). last r = ''10.0.0.1''"
    using t1 b1 v1 p1 unfolding lb_rows_def by blast
  have f1: "filter (\<lambda>r. last r = ''10.0.0.1'') (lb_rows chain_store)
        = [[''192.0.2.10'', ''HTTP'', ''80'', ''v1'', ''VS1'', ''SG1'', ''80'', ''c1'', ''S1'', [],
            ''10.0.0.1'']]"
    using t1 b1 v1 p1 unfolding lb_rows_def by blast
  have f2: "filter (\<lambda>r. last r = ''10.0.0.2'') (lb_rows chain_store) = []"
    using t2 b2 unfolding lb_rows_def by blast
  have f3: "filter (\<lambda>r. last r = ''10.0.0.3'') (lb_rows chain_store) = []"
    using t3 b3 v3 unfolding lb_rows_def by blast
  have f4: "filter (\<lambda>r. last r = ''10.0.0.4'') (lb_rows chain_store) = []"
    using t4 b4 v4 p4 unfolding lb_rows_def by blast
  show ?thesis
    using run s1 s2 s3 s4 b1 b2 b3 b4 v1 v3 v4 p1 p4 r1 f1 f2 f3 f4 by blast
qed

section \<open>The two chains share \<open>srvs\<close> and \<open>vServers\<close>\<close>

lemma cross_lines_run: "readlines cross_lines empty_store = (Inr (), cross_store)"
  by (simp add: cross_lines_def cross_store_def empty_store_def readline_def server_parse_def
      bind_servicegroup_parse_def bind_lb_parse_def lb_vserver_parse_def gslb_parse_def
      gslb_vserver_parse_def str_eval)

text \<open>
  Claim C3 fails as stated. Server \<open>S1\<close> is bound by \<open>add gslb service\<close> alone (its
  entry in \<open>srvs\<close> has the kind \<open>HTTP\<close>), and its GSLB virtual server \<open>VS1\<close> also has
  an \<open>add lb vserver\<close> line: \<open>S1\<close> gets a row in the LB report. Server \<open>S2\<close> is bound
  by \<open>bind serviceGroup\<close> alone (kind \<open>LB\<close>), and its virtual server \<open>VS2\<close> also has
  a domain bound: \<open>S2\<close> gets a row in the GSLB report.
\<close>

theorem chain_separation_counterexample:
  "readlines cross_lines empty_store = (Inr (), cross_store)
   \<and> map_of (srvs cross_store) ''S1'' = Some (''GS1'', ''HTTP'', ''80'', ''g1'')
   \<and> map_of (srvs cross_store) ''S2'' = Some (''SG2'', ''LB'', ''80'', ''c2'')
   \<and> main [cross_lines] =
       Inr ([lb_header,
             [''192.0.2.10'', ''HTTP'', ''80'', ''v1'', ''VS1'', ''GS1'', ''80'', ''g1'', ''S1'', [],
              ''10.0.0.1'']],
            [gslb_header,
             [''example.com'', ''VS2'', ''SG2'', ''LB'', ''80'', ''c2'', [], ''S2'', ''10.0.0.2'']])"
proof -
  have "main [cross_lines] =
       Inr ([lb_header,
             [''192.0.2.10'', ''HTTP'', ''80'', ''v1'', ''VS1'', ''GS1'', ''80'', ''g1'', ''S1'', [],
              ''10.0.0.1'']],
            [gslb_header,
             [''example.com'', ''VS2'', ''SG2'', ''LB'', ''80'', ''c2'', [], ''S2'', ''10.0.0.2'']])"
    using cross_lines_run
    by (simp add: main_def lb_report_def gslb_report_def lb_rows_def gslb_rows_def
        lb_rows_over_def gslb_rows_over_def lb_row_def gslb_row_def keys_def cross_store_def)
  then show ?thesis
    using cross_lines_run by (simp add: cross_store_def)
qed

text \<open>
  Claim C3, amended. Neither loop looks at the kind tag (the LB loop unpacks it into
  \<open>notUsed\<close>). For any input read without error, any enumeration order \<open>ks\<close> of the
  server keys, and any server whose name has an entry in \<open>srvs\<close>, whatever parser wrote
  it and whatever its kind: the server has no LB row exactly when \<open>vServers\<close> has no
  entry for the entry's identifier or \<open>VIPs\<close> has none for the virtual server found,
  and no GSLB row exactly when \<open>vServers\<close> has no entry for the identifier or
  \<open>domains\<close> has none for the virtual server found.
\<close>

theorem chains_ignore_kind:
  assumes "readlines ls empty_store = (Inr (), st)"
    and "mset ks = mset (keys (servers st))"
    and "map_of (servers st) IP = Some (srvName, srvComment)"
    and "map_of (srvs st) srvName = Some (ident, kind, port, cmt)"
  shows "((\<not> (\<exists>r \<in> set (lb_rows_over st ks). last r = IP)) \<longleftrightarrow>
            (map_of (vServers st) ident = None
             \<or> (\<exists>v. map_of (vServers st) ident = Some v \<and> map_of (VIPs st) v = None)))
       \<and> ((\<not> (\<exists>r \<in> set (gslb_rows_over st ks). last r = IP)) \<longleftrightarrow>
            (map_of (vServers st) ident = None
             \<or> (\<exists>v. map_of (vServers st) ident = Some v \<and> map_of (domains st) v = None)))"
proof -
  have "distinct ks" and "set ks = set (keys (servers st))"
    using run_servers_distinct [OF assms(1,2)] by simp_all
  moreover have "IP \<in> set (keys (servers st))"
    using assms(3) by (rule server_key)
  ultimately have lb: "filter (\<lambda>r. last r = IP) (lb_rows_over st ks) = lb_row st IP"
    and gslb: "filter (\<lambda>r. last r = IP) (gslb_rows_over st ks) = gslb_row st IP"
    by (simp_all add: lb_rows_of_server gslb_rows_of_server)
  have L: "(\<not> (\<exists>r \<in> set (lb_rows_over st ks). last r = IP)) \<longleftrightarrow> lb_row st IP = []"
    by (simp add: Bex_last_filter lb)
  have G: "(\<not> (\<exists>r \<in> set (gslb_rows_over st ks). last r = IP)) \<longleftrightarrow> gslb_row st IP = []"
    by (simp add: Bex_last_filter gslb)
  have c1: "lb_row st IP = [] \<longleftrightarrow>
      (map_of (vServers st) ident = None
       \<or> (\<exists>v. map_of (vServers st) ident = Some v \<and> map_of (VIPs st) v = None))"
    using assms(3,4) by (auto simp: lb_row_def split: option.splits)
  have c2: "gslb_row st IP = [] \<longleftrightarrow>
      (map_of (vServers st) ident = None
       \<or> (\<exists>v. map_of (vServers st) ident = Some v \<and> map_of (domains st) v = None))"
    using assms(3,4) by (auto simp: gslb_row_def split: option.splits)
  show ?thesis
    unfolding L G using c1 c2 by blast
qed

text \<open>
  On the input of the counterexample: \<open>S1\<close> (kind \<open>HTTP\<close>) has an LB row because
  \<open>vServers\<close> and \<open>VIPs\<close> resolve and no GSLB row because \<open>domains\<close> has nothing for
  \<open>VS1\<close>; \<open>S2\<close> (kind \<open>LB\<close>) has no LB row because \<open>VIPs\<close> has nothing for \<open>VS2\<close> and
  a GSLB row because \<open>vServers\<close> and \<open>domains\<close> resolve.
\<close>

theorem chains_ignore_kind_witness:
  "readlines cross_lines empty_store = (Inr (), cross_store)
   \<and> mset (keys (servers cross_store)) = mset (keys (servers cross_store))
   \<and> map_of (servers cross_store) ''10.0.0.1'' = Some (''S1'', [])
   \<and> map_of (srvs cross_store) ''S1'' = Some (''GS1'', ''HTTP'', ''80'', ''g1'')
   \<and> map_of (vServers cross_store) ''GS1'' = Some ''VS1''
   \<and> map_of (VIPs cross_store) ''VS1'' = Some (''192.0.2.10'', ''HTTP'', ''80'', ''v1'')
   \<and> map_of (domains cross_store) ''VS1'' = None
   \<and> (\<exists>r \<in> set (lb_rows cross_store). last r = ''10.0.0.1'')
   \<and> \<not> (\<exists>r \<in> set (gslb_rows cross_store). last r = ''10.0.0.1'')
   \<and> map_of (servers cross_store) ''10.0.0.2'' = Some (''S2'', [])
   \<and> map_of (srvs cross_store) ''S2'' = Some (''SG2'', ''LB'', ''80'', ''c2'')
   \<and> map_of (vServers cross_store) ''SG2'' = Some ''VS2''
   \<and> map_of (VIPs cross_store) ''VS2'' = None
   \<and> map_of (domains cross_store) ''VS2'' = Some ''example.com''
   \<and> \<not> (\<exists>r \<in> set (lb_rows cross_store). last r = ''10.0.0.2'')
   \<and> (\<exists>r \<in> set (gslb_rows cross_store). last r = ''10.0.0.2'')"
proof -
  have ks: "mset (keys (servers cross_store)) = mset (keys (servers cross_store))"
    by simp
  have s1: "map_of (servers cross_store) ''10.0.0.1'' = Some (''S1'', [])"
    and s2: "map_of (servers cross_store) ''10.0.0.2'' = Some (''S2'', [])"
    by (simp_all add: cross_store_def)
  have b1: "map_of (srvs cross_store) ''S1'' = Some (''GS1'', ''HTTP'', ''80'', ''g1'')"
    and b2: "map_of (srvs cross_store) ''S2'' = Some (''SG2'', ''LB'', ''80'', ''c2'')"
    by (simp_all add: cross_store_def)
  have v1: "map_of (vServers cross_store) ''GS1'' = Some ''VS1''"
    and v2: "map_of (vServers cross_store) ''SG2'' = Some ''VS2''"
    by (simp_all add: cross_store_def)
  have p1: "map_of (VIPs cross_store) ''VS1'' = Some (''192.0.2.10'', ''HTTP'', ''80'', ''v1'')"
    and p2: "map_of (VIPs cross_store) ''VS2'' = None"
    by (simp_all add: cross_store_def)
  have d1: "map_of (domains cross_store) ''VS1'' = None"
    and d2: "map_of (domains cross_store) ''VS2'' = Some ''example.com''"
    by (simp_all add: cross_store_def)
  note t1 = chains_ignore_kind [OF cross_lines_run ks s1 b1, folded lb_rows_def gslb_rows_def]
  note t2 = chains_ignore_kind [OF cross_lines_run ks s2 b2, folded lb_rows_def gslb_rows_def]
  have l1: "\<exists>r \<in> set (lb_rows cross_store). last r = ''10.0.0.1''"
    using t1 v1 p1 by simp
  have g1: "\<not> (\<exists>r \<in> set (gslb_rows cross_store). last r = ''10.0.0.1'')"
    using t1 v1 d1 by simp
  have l2: "\<not> (\<exists>r \<in> set (lb_rows cross_store). last r = ''10.0.0.2'')"
    using t2 v2 p2 by simp
  have g2: "\<exists>r \<in> set (gslb_rows cross_store). last r = ''10.0.0.2''"
    using t2 v2 d2 by simp
  show ?thesis
    using cross_lines_run s1 s2 b1 b2 v1 v2 p1 p2 d1 d2 l1 g1 l2 g2 by simp
qed

section \<open>The GSLB report\<close>

lemma commented_gslb_run:
  "readlines commented_gslb_lines empty_store = (Inr (), commented_gslb_store)"
  by (simp add: commented_gslb_lines_def commented_gslb_store_def empty_store_def readline_def
      server_parse_def gslb_parse_def gslb_vserver_parse_def str_eval)

lemma commented_gslb_rows:
  "gslb_rows commented_gslb_store =
     [[''example.com'', ''VS2'', ''GS1'', ''HTTP'', ''80'', ''g1'', ''srv'', ''S2'', ''10.0.0.2'']]"
  by (simp add: gslb_rows_def gslb_rows_over_def gslb_row_def keys_def commented_gslb_store_def)

text \<open>
  Claim C2 fails as stated. With \<open>add server S2 10.0.0.2 -comment "srv"\<close> and
  \<open>add gslb service GS1 S2 HTTP 80 -comment "g1"\<close>, the one GSLB row carries \<open>g1\<close>
  in its sixth column and \<open>srv\<close>, the comment of the \<open>add server\<close> line, in its
  seventh: the two comment columns are not the same comment.
\<close>

theorem gslb_comment_columns_counterexample:
  "readlines commented_gslb_lines empty_store = (Inr (), commented_gslb_store)
   \<and> gslb_rows commented_gslb_store =
       [[''example.com'', ''VS2'', ''GS1'', ''HTTP'', ''80'', ''g1'', ''srv'', ''S2'', ''10.0.0.2'']]
   \<and> hd (gslb_rows commented_gslb_store) ! 5 = ''g1''
   \<and> hd (gslb_rows commented_gslb_store) ! 6 = ''srv''
   \<and> hd (gslb_rows commented_gslb_store) ! 6 \<noteq> hd (gslb_rows commented_gslb_store) ! 5"
  using commented_gslb_run by (simp add: commented_gslb_rows)

text \<open>
  Claim C2, amended. Every GSLB row, for any store and any list of keys traversed, has
  the shape (domain, vServer, gslbService, serviceType, port, srvcComment, srvComment,
  srvName, IP), where \<open>(srvName, srvComment)\<close> is \<open>servers[IP]\<close>,
  \<open>(gslbService, serviceType, port, srvcComment)\<close> is \<open>srvs[srvName]\<close>, \<open>vServer\<close> is
  \<open>vServers[gslbService]\<close> and \<open>domain\<close> is \<open>domains[vServer]\<close>: the sixth column is
  the comment of the service binding, the seventh the comment of the server.
\<close>

theorem gslb_row_shape:
  assumes "r \<in> set (gslb_rows_over st ks)"
  shows "\<exists>IP srvName srvComment gslbService serviceType port srvcComment vServer domain.
           IP \<in> set ks
         \<and> map_of (servers st) IP = Some (srvName, srvComment)
         \<and> map_of (srvs st) srvName = Some (gslbService, serviceType, port, srvcComment)
         \<and> map_of (vServers st) gslbService = Some vServer
         \<and> map_of (domains st) vServer = Some domain
         \<and> r = [domain, vServer, gslbService, serviceType, port, srvcComment, srvComment,
                srvName, IP]"
proof -
  from assms obtain IP where "IP \<in> set ks" and "r \<in> set (gslb_row st IP)"
    by (auto simp: gslb_rows_over_def)
  then show ?thesis
    by (auto simp: gslb_row_def split: option.splits)
qed

text \<open>The row of the counterexample's input.\<close>

theorem gslb_row_shape_witness:
  "[''example.com'', ''VS2'', ''GS1'', ''HTTP'', ''80'', ''g1'', ''srv'', ''S2'', ''10.0.0.2'']
      \<in> set (gslb_rows_over commented_gslb_store (keys (servers commented_gslb_store)))
   \<and> (\<exists>IP srvName srvComment gslbService serviceType port srvcComment vServer domain.
           IP \<in> set (keys (servers commented_gslb_store))
         \<and> map_of (servers commented_gslb_store) IP = Some (srvName, srvComment)
         \<and> map_of (srvs commented_gslb_store) srvName
              = Some (gslbService, serviceType, port, srvcComment)
         \<and> map_of (vServers commented_gslb_store) gslbService = Some vServer
         \<and> map_of (domains commented_gslb_store) vServer = Some domain
         \<and> [''example.com'', ''VS2'', ''GS1'', ''HTTP'', ''80'', ''g1'', ''srv'', ''S2'',
             ''10.0.0.2'']
            = [domain, vServer, gslbService, serviceType, port, srvcComment, srvComment,
               srvName, IP])"
proof -
  have m: "[''example.com'', ''VS2'', ''GS1'', ''HTTP'', ''80'', ''g1'', ''srv'', ''S2'', ''10.0.0.2'']
      \<in> set (gslb_rows_over commented_gslb_store (keys (servers commented_gslb_store)))"
    using commented_gslb_rows by (simp add: gslb_rows_def)
  show ?thesis
    using m gslb_row_shape [OF m] by blast
qed

section \<open>The GSLB example, end to end\<close>

lemma gslb_example_run:
  "readlines (map (\<lambda>l. l @ [newline]) gslb_example) empty_store = (Inr (), gslb_example_store)"
  by (simp add: gslb_example_def gslb_example_store_def empty_store_def readline_def
      server_parse_def gslb_parse_def gslb_vserver_parse_def str_eval)

lemma gslb_example_run_bare:
  "readlines gslb_example empty_store = (Inr (), gslb_example_store)"
  by (simp add: gslb_example_def gslb_example_store_def empty_store_def readline_def
      server_parse_def gslb_parse_def gslb_vserver_parse_def str_eval)

lemma gslb_example_reports:
  "lb_report gslb_example_store = [lb_header]"
  "gslb_report gslb_example_store =
     [gslb_header,
      [''example.com'', ''VS2'', ''GS1'', ''HTTP'', ''80'', ''g1'', [], ''S2'', ''10.0.0.2'']]"
  by (simp_all add: lb_report_def gslb_report_def lb_rows_def gslb_rows_def lb_rows_over_def
      gslb_rows_over_def lb_row_def gslb_row_def keys_def gslb_example_store_def)

text \<open>
  Claim C5. On the file made of the four lines of the example, each ended by a
  newline as the file iterator yields them (and also without the newlines), the run
  succeeds, the LB report has no data row, and the GSLB report is its header and
  exactly one data row: domain \<open>example.com\<close>, vServer \<open>VS2\<close>, gslbService \<open>GS1\<close>,
  serviceType \<open>HTTP\<close>, port \<open>80\<close>, srvcComment \<open>g1\<close>, an empty srvComment, srvName
  \<open>S2\<close>, IP \<open>10.0.0.2\<close>.
\<close>

theorem gslb_example_report:
  "main [map (\<lambda>l. l @ [newline]) gslb_example] =
     Inr ([lb_header],
          [gslb_header,
           [''example.com'', ''VS2'', ''GS1'', ''HTTP'', ''80'', ''g1'', [], ''S2'', ''10.0.0.2'']])
   \<and> main [gslb_example] =
     Inr ([lb_header],
          [gslb_header,
           [''example.com'', ''VS2'', ''GS1'', ''HTTP'', ''80'', ''g1'', [], ''S2'', ''10.0.0.2'']])"
  using gslb_example_run gslb_example_run_bare
  by (simp add: main_def gslb_example_reports)

section \<open>The LB example, end to end\<close>

lemma lb_example_server_step:
  assumes "l \<in> with_ends lb_example_server"
  shows "readline l (lb_example_store s1 s2 s3 s4) = (Inr (), lb_example_store True s2 s3 s4)"
proof -
  from assms have l: "l = lb_example_server \<or> l = lb_example_server @ [newline]"
    by (simp add: with_ends_def)
  have "readline l st =
      (Inr (), st\<lparr>servers := AList.update ''10.0.0.1'' (''S1'', []) (servers st)\<rparr>)" for st
    using l
    by (elim disjE)
      (simp_all add: lb_example_server_def readline_def server_parse_def str_eval)
  then show ?thesis by (simp add: lb_example_store_def)
qed

lemma lb_example_group_step:
  assumes "l \<in> with_ends lb_example_group"
  shows "readline l (lb_example_store s1 s2 s3 s4) = (Inr (), lb_example_store s1 True s3 s4)"
proof -
  from assms have l: "l = lb_example_group \<or> l = lb_example_group @ [newline]"
    by (simp add: with_ends_def)
  have "readline l st =
      (Inr (), st\<lparr>srvs := AList.update ''S1'' (''SG1'', ''LB'', ''80'', ''c1'') (srvs st)\<rparr>)" for st
    using l
    by (elim disjE)
      (simp_all add: lb_example_group_def readline_def bind_servicegroup_parse_def str_eval)
  then show ?thesis by (simp add: lb_example_store_def)
qed

lemma lb_example_bind_step:
  assumes "l \<in> with_ends lb_example_bind"
  shows "readline l (lb_example_store s1 s2 s3 s4) = (Inr (), lb_example_store s1 s2 True s4)"
proof -
  from assms have l: "l = lb_example_bind \<or> l = lb_example_bind @ [newline]"
    by (simp add: with_ends_def)
  have "readline l st =
      (Inr (), st\<lparr>vServers := AList.update ''SG1'' ''VS1'' (vServers st)\<rparr>)" for st
    using l
    by (elim disjE)
      (simp_all add: lb_example_bind_def readline_def bind_lb_parse_def str_eval)
  then show ?thesis by (simp add: lb_example_store_def)
qed

lemma lb_example_vserver_step:
  assumes "l \<in> with_ends lb_example_vserver"
  shows "readline l (lb_example_store s1 s2 s3 s4) = (Inr (), lb_example_store s1 s2 s3 True)"
proof -
  from assms have l: "l = lb_example_vserver \<or> l = lb_example_vserver @ [newline]"
    by (simp add: with_ends_def)
  have "readline l st =
      (Inr (), st\<lparr>VIPs :=
         AList.update ''VS1'' (''192.0.2.10'', ''HTTP'', ''80'', ''v1'') (VIPs st)\<rparr>)" for st
    using l
    by (elim disjE)
      (simp_all add: lb_example_vserver_def readline_def lb_vserver_parse_def str_eval)
  then show ?thesis by (simp add: lb_example_store_def)
qed

lemma lb_example_heads:
  "l \<in> with_ends lb_example_server \<Longrightarrow> take 6 l = ''add se''"
  "l \<in> with_ends lb_example_group \<Longrightarrow> take 6 l = ''bind s''"
  "l \<in> with_ends lb_example_bind \<Longrightarrow> take 6 l = ''bind l''"
  "l \<in> with_ends lb_example_vserver \<Longrightarrow> take 6 l = ''add lb''"
  by (auto simp: with_ends_def lb_example_server_def lb_example_group_def lb_example_bind_def
      lb_example_vserver_def)

lemma lb_example_kinds_apart:
  "l \<in> with_ends lb_example_server \<Longrightarrow>
     l \<notin> with_ends lb_example_group \<and> l \<notin> with_ends lb_example_bind
     \<and> l \<notin> with_ends lb_example_vserver"
  "l \<in> with_ends lb_example_group \<Longrightarrow>
     l \<notin> with_ends lb_example_server \<and> l \<notin> with_ends lb_example_bind
     \<and> l \<notin> with_ends lb_example_vserver"
  "l \<in> with_ends lb_example_bind \<Longrightarrow>
     l \<notin> with_ends lb_example_server \<and> l \<notin> with_ends lb_example_group
     \<and> l \<notin> with_ends lb_example_vserver"
  "l \<in> with_ends lb_example_vserver \<Longrightarrow>
     l \<notin> with_ends lb_example_server \<and> l \<notin> with_ends lb_example_group
     \<and> l \<notin> with_ends lb_example_bind"
  using lb_example_heads [of l] by auto

lemma lb_example_fold:
  assumes "set ls \<subseteq> with_ends lb_example_server \<union> with_ends lb_example_group
             \<union> with_ends lb_example_bind \<union> with_ends lb_example_vserver"
  shows "readlines ls (lb_example_store s1 s2 s3 s4) =
           (Inr (), lb_example_store
              (s1 \<or> set ls \<inter> with_ends lb_example_server \<noteq> {})
              (s2 \<or> set ls \<inter> with_ends lb_example_group \<noteq> {})
              (s3 \<or> set ls \<inter> with_ends lb_example_bind \<noteq> {})
              (s4 \<or> set ls \<inter> with_ends lb_example_vserver \<noteq> {}))"
  using assms
proof (induction ls arbitrary: s1 s2 s3 s4)
  case Nil
  then show ?case by simp
next
  case (Cons l ls)
  then have rest: "set ls \<subseteq> with_ends lb_example_server \<union> with_ends lb_example_group
             \<union> with_ends lb_example_bind \<union> with_ends lb_example_vserver"
    by simp
  note IH = Cons.IH [OF rest]
  from Cons.prems consider
      (server) "l \<in> with_ends lb_example_server"
    | (group) "l \<in> with_ends lb_example_group"
    | (bind) "l \<in> with_ends lb_example_bind"
    | (vserver) "l \<in> with_ends lb_example_vserver"
    by auto
  then show ?case
  proof cases
    case server
    with lb_example_kinds_apart(1) [OF server] show ?thesis
      by (simp add: lb_example_server_step IH)
  next
    case group
    with lb_example_kinds_apart(2) [OF group] show ?thesis
      by (simp add: lb_example_group_step IH)
  next
    case bind
    with lb_example_kinds_apart(3) [OF bind] show ?thesis
      by (simp add: lb_example_bind_step IH)
  next
    case vserver
    with lb_example_kinds_apart(4) [OF vserver] show ?thesis
      by (simp add: lb_example_vserver_step IH)
  qed
qed

lemma lb_example_reports:
  "lb_report (lb_example_store True True True True) =
     [lb_header,
      [''192.0.2.10'', ''HTTP'', ''80'', ''v1'', ''VS1'', ''SG1'', ''80'', ''c1'', ''S1'', [],
       ''10.0.0.1'']]"
  "gslb_report (lb_example_store True True True True) = [gslb_header]"
  by (simp_all add: lb_report_def gslb_report_def lb_rows_def gslb_rows_def lb_rows_over_def
      gslb_rows_over_def lb_row_def gslb_row_def keys_def lb_example_store_def)

text \<open>
  Claim C4. Let the lines of all the files given, taken together, be the four lines
  of the example in any order (a permutation of them), each with or without its
  newline. Then the run succeeds, the LB report is its header and exactly one data
  row, \<open>(192.0.2.10, HTTP, 80, v1, VS1, SG1, 80, c1, S1, '', 10.0.0.1)\<close>, and the GSLB
  report has no data row.
\<close>

theorem lb_example_any_order:
  assumes "x1 \<in> with_ends lb_example_server" and "x2 \<in> with_ends lb_example_group"
    and "x3 \<in> with_ends lb_example_bind" and "x4 \<in> with_ends lb_example_vserver"
    and "mset (concat confFiles) = mset [x1, x2, x3, x4]"
  shows "main confFiles =
           Inr ([lb_header,
                 [''192.0.2.10'', ''HTTP'', ''80'', ''v1'', ''VS1'', ''SG1'', ''80'', ''c1'', ''S1'',
                  [], ''10.0.0.1'']],
                [gslb_header])"
proof -
  have s: "set (concat confFiles) = {x1, x2, x3, x4}"
    using mset_eq_setD [OF assms(5)] by simp
  have sub: "set (concat confFiles) \<subseteq> with_ends lb_example_server \<union> with_ends lb_example_group
             \<union> with_ends lb_example_bind \<union> with_ends lb_example_vserver"
    using assms(1-4) s by auto
  have hit: "set (concat confFiles) \<inter> with_ends lb_example_server \<noteq> {}"
    "set (concat confFiles) \<inter> with_ends lb_example_group \<noteq> {}"
    "set (concat confFiles) \<inter> with_ends lb_example_bind \<noteq> {}"
    "set (concat confFiles) \<inter> with_ends lb_example_vserver \<noteq> {}"
    using assms(1-4) s by auto
  have e: "empty_store = lb_example_store False False False False"
    by (simp add: empty_store_def lb_example_store_def)
  have "readlines (concat confFiles) empty_store
          = (Inr (), lb_example_store True True True True)"
    unfolding e using lb_example_fold [OF sub, of False False False False] hit by simp
  moreover have "confFiles \<noteq> []"
    using s by auto
  ultimately show ?thesis
    by (simp add: main_def lb_example_reports)
qed

text \<open>
  The four lines in reverse order, split over two files, the last line of the second
  file without a newline.
\<close>

theorem lb_example_any_order_witness:
  "lb_example_server \<in> with_ends lb_example_server
   \<and> lb_example_group @ [newline] \<in> with_ends lb_example_group
   \<and> lb_example_bind @ [newline] \<in> with_ends lb_example_bind
   \<and> lb_example_vserver @ [newline] \<in> with_ends lb_example_vserver
   \<and> mset (concat [[lb_example_vserver @ [newline], lb_example_bind @ [newline]],
                    [lb_example_group @ [newline], lb_example_server]])
       = mset [lb_example_server, lb_example_group @ [newline], lb_example_bind @ [newline],
               lb_example_vserver @ [newline]]
   \<and> main [[lb_example_vserver @ [newline], lb_example_bind @ [newline]],
            [lb_example_group @ [newline], lb_example_server]] =
           Inr ([lb_header,
                 [''192.0.2.10'', ''HTTP'', ''80'', ''v1'', ''VS1'', ''SG1'', ''80'', ''c1'', ''S1'',
                  [], ''10.0.0.1'']],
                [gslb_header])"
proof -
  have a: "lb_example_server \<in> with_ends lb_example_server"
    and b: "lb_example_group @ [newline] \<in> with_ends lb_example_group"
    and c: "lb_example_bind @ [newline] \<in> with_ends lb_example_bind"
    and d: "lb_example_vserver @ [newline] \<in> with_ends lb_example_vserver"
    by (simp_all add: with_ends_def)
  have m: "mset (concat [[lb_example_vserver @ [newline], lb_example_bind @ [newline]],
                    [lb_example_group @ [newline], lb_example_server]])
       = mset [lb_example_server, lb_example_group @ [newline], lb_example_bind @ [newline],
               lb_example_vserver @ [newline]]"
    by (simp add: ac_simps)
  show ?thesis
    using a b c d m lb_example_any_order [OF a b c d m] by simp
qed

end
